theory Spec2Isabelle
  imports Main "HOL-Library.Sublist"
begin

text \<open>
  A model of \<open>src/web/auto-reply.ts\<close>: the echo set, the group history buffers, the
  mention test, the \<open>onMessage\<close> handler with \<open>processMessage\<close>, the delivery of a
  reply (\<open>deliverWebReply\<close>) and the reconnect loop of \<open>monitorWebProvider\<close> with its
  watchdog. Mutable variables of the closure are fields of a state that is passed
  along; what the code awaits from outside (the listener, the resolver, the network)
  is an argument that says what the outside answers.
\<close>

section \<open>Strings and truthiness\<close>

text \<open>
  A JavaScript string is a sequence of UTF-16 code units. The code under study strips
  invisible code points, trims Unicode white space and builds a warning that starts with
  U+26A0, so a string is modelled as the list of its code units.
\<close>

type_synonym jsstring = "nat list"

definition js :: "string \<Rightarrow> jsstring" where
  "js s = map of_char s"

text \<open>\<open>!s\<close> on an optional string: \<open>undefined\<close> and the empty string are falsy.\<close>

fun truthy :: "jsstring option \<Rightarrow> bool" where
  "truthy None = False"
| "truthy (Some s) = (s \<noteq> [])"

text \<open>White space and line terminators, as \<open>String.prototype.trim\<close> and \<open>\s\<close> see them.\<close>

definition js_space :: "nat \<Rightarrow> bool" where
  "js_space c = (c \<in> {9, 10, 11, 12, 13, 32, 160, 5760, 8232, 8233, 8239, 8287, 12288, 65279}
                 \<or> (8192 \<le> c \<and> c \<le> 8202))"

definition trim :: "jsstring \<Rightarrow> jsstring" where
  "trim s = rev (dropWhile js_space (rev (dropWhile js_space s)))"

section \<open>Reply payloads and the silent-reply token\<close>

text \<open>\<open>ReplyPayload\<close>: every field is optional (\<open>ptext\<close> is the field \<open>text\<close>).\<close>

record payload =
  ptext :: "jsstring option"
  mediaUrl :: "jsstring option"
  mediaUrls :: "jsstring list option"
  replyToId :: "jsstring option"

text \<open>\<open>payload.mediaUrl || payload.mediaUrls?.length\<close>, read as a condition.\<close>

definition hasMedia :: "payload \<Rightarrow> bool" where
  "hasMedia p = (truthy (mediaUrl p) \<or> (case mediaUrls p of None \<Rightarrow> False | Some us \<Rightarrow> us \<noteq> []))"

text \<open>
  \<open>isSilentReply\<close>. The token \<open>SILENT_REPLY_TOKEN\<close> is imported from
  \<open>auto-reply/tokens.js\<close>, which is not among the sources, and is a parameter here.
\<close>

definition isSilentReply :: "jsstring \<Rightarrow> payload option \<Rightarrow> bool" where
  "isSilentReply token po =
     (case po of
        None \<Rightarrow> False
      | Some p \<Rightarrow>
          (let t = map_option trim (ptext p) in
           if \<not> truthy t \<or> t \<noteq> Some token then False
           else if hasMedia p then False
           else True))"

text \<open>\<open>replyList.filter((payload) => !isSilentReply(payload))\<close>\<close>

definition sendableReplies :: "jsstring \<Rightarrow> payload list \<Rightarrow> payload list" where
  "sendableReplies token replyList = filter (\<lambda>p. \<not> isSilentReply token (Some p)) replyList"

section \<open>The echo set\<close>

text \<open>
  \<open>recentlySent\<close> is a JavaScript \<open>Set\<close> of strings. A \<open>Set\<close> iterates in insertion
  order and adding a member again leaves its place unchanged, so it is modelled as a list
  without repetitions, oldest first.
\<close>

definition set_add :: "'a \<Rightarrow> 'a list \<Rightarrow> 'a list" where
  "set_add x xs = (if x \<in> set xs then xs else xs @ [x])"

definition set_delete :: "'a \<Rightarrow> 'a list \<Rightarrow> 'a list" where
  "set_delete x xs = removeAll x xs"

definition MAX_RECENT_MESSAGES :: nat where
  "MAX_RECENT_MESSAGES = 100"

text \<open>
  \<open>if (recentlySent.size > MAX_RECENT_MESSAGES) { const firstKey =
  recentlySent.values().next().value; if (firstKey) recentlySent.delete(firstKey); }\<close>
\<close>

definition evict_first :: "jsstring list \<Rightarrow> jsstring list" where
  "evict_first rs =
     (if length rs > MAX_RECENT_MESSAGES then
        (case rs of [] \<Rightarrow> rs
         | firstKey # _ \<Rightarrow> if firstKey \<noteq> [] then set_delete firstKey rs else rs)
      else rs)"

text \<open>The bookkeeping after a tool result has been delivered (one insertion).\<close>

definition record_tool_sent :: "jsstring option \<Rightarrow> jsstring list \<Rightarrow> jsstring list" where
  "record_tool_sent t rs =
     (case t of
        None \<Rightarrow> rs
      | Some txt \<Rightarrow> if txt = [] then rs else evict_first (set_add txt rs))"

text \<open>
  The bookkeeping after a final reply has been delivered: the reply text and the combined
  inbound body are both inserted, then the size is checked once.
\<close>

definition record_reply_sent :: "jsstring option \<Rightarrow> jsstring \<Rightarrow> jsstring list \<Rightarrow> jsstring list" where
  "record_reply_sent t combinedBody rs =
     (case t of
        None \<Rightarrow> rs
      | Some txt \<Rightarrow>
          if txt = [] then rs
          else evict_first (set_add combinedBody (set_add txt rs)))"

text \<open>
  The echo test of the message handler and of \<open>processMessage\<close>:
  \<open>if (recentlySent.has(b)) { recentlySent.delete(b); return; }\<close>. The first component
  says whether the message is suppressed.
\<close>

definition echo_consume :: "jsstring \<Rightarrow> jsstring list \<Rightarrow> bool \<times> jsstring list" where
  "echo_consume b rs = (if b \<in> set rs then (True, set_delete b rs) else (False, rs))"

section \<open>Group history\<close>

record hist_entry =
  sender :: jsstring
  body :: jsstring
  timestamp :: "nat option"

text \<open>
  \<open>while (history.length > groupHistoryLimit) history.shift()\<close>. The limit is a number read
  from the configuration; \<open>shift\<close> on an empty array leaves it empty, so below zero the
  loop never ends, which is the value \<open>None\<close>.
\<close>

partial_function (option) trim_history :: "int \<Rightarrow> 'a list \<Rightarrow> 'a list option" where
  "trim_history limit h =
     (if int (length h) > limit then trim_history limit (tl h) else Some h)"

definition DEFAULT_GROUP_HISTORY_LIMIT :: int where
  "DEFAULT_GROUP_HISTORY_LIMIT = 50"

text \<open>\<open>cfg.routing?.groupChat?.historyLimit ?? DEFAULT_GROUP_HISTORY_LIMIT\<close>\<close>

definition groupHistoryLimit :: "int option \<Rightarrow> int" where
  "groupHistoryLimit configured = (case configured of None \<Rightarrow> DEFAULT_GROUP_HISTORY_LIMIT | Some n \<Rightarrow> n)"

text \<open>\<open>history.push(entry)\<close> followed by the eviction loop.\<close>

definition history_push :: "int \<Rightarrow> 'a list \<Rightarrow> 'a \<Rightarrow> 'a list option" where
  "history_push limit h e = trim_history limit (h @ [e])"

text \<open>A burst of messages for one conversation, appended one after the other.\<close>

fun history_push_all :: "int \<Rightarrow> 'a list \<Rightarrow> 'a list \<Rightarrow> 'a list option" where
  "history_push_all limit h [] = Some h"
| "history_push_all limit h (e # es) =
     (case history_push limit h e of None \<Rightarrow> None | Some h' \<Rightarrow> history_push_all limit h' es)"

section \<open>The connection supervisor\<close>

text \<open>
  The reason a listener's \<open>onClose\<close> resolves with. Both fields are optional in the
  source; a missing \<open>isLoggedOut\<close> is falsy.
\<close>

record close_reason =
  status :: "nat option"
  isLoggedOut :: bool

text \<open>
  What \<open>Promise.race([listener.onClose, abortPromise])\<close> settles with: \<open>onClose\<close>
  resolves with a reason (possibly \<open>undefined\<close>), \<open>onClose\<close> rejects, the abort signal
  fires, or neither promise ever settles.
\<close>

datatype race_outcome = Resolved "close_reason option" | Rejected | Aborted | Pending

text \<open>
  What the surroundings do during one pass of the loop: whether the abort signal is set at
  the top, whether the listener factory resolves, the readings (clock, \<open>lastMessageAt\<close>)
  that the watchdog callback sees at its runs while the connection is up, whether the
  listener offers \<open>signalClose\<close> (which settles \<open>onClose\<close> with the reason it is given),
  how the race ends when left to the listener and the abort signal and how long the
  connection was up by then, whether a stop was requested by then (abort signal or
  SIGINT), and whether the back-off sleep is aborted.
\<close>

record connection =
  stop_at_top :: bool
  factory_resolves :: bool
  ticks :: "(nat \<times> nat option) list"
  has_signalClose :: bool
  race :: race_outcome
  uptimeMs :: nat
  stop_after_race :: bool
  sleep_aborted :: bool

record disconnect =
  d_status :: "nat option"
  d_loggedOut :: bool

record provider_status =
  running :: bool
  connected :: bool
  reconnectAttempts :: nat
  lastDisconnect :: "disconnect option"

text \<open>
  The variables of \<open>monitorWebProvider\<close> that the loop changes, and what it does to the
  outside: calls of the listener factory, calls of \<open>closeListener\<close>, back-off sleeps and
  lines written with \<open>runtime.error\<close>.
\<close>

datatype error_line = LoggedOutLine | MaxAttemptsLine nat nat | RetryLine nat nat

record monitor_state =
  provider :: provider_status
  attempts :: nat
  factory_calls :: nat
  close_calls :: nat
  sleeps :: "nat list"
  error_lines :: "error_line list"

text \<open>
  The tuning of one run. \<open>computeBackoff\<close>, \<open>resolveReconnectPolicy\<close> and
  \<open>resolveHeartbeatSeconds\<close> live in \<open>web/reconnect.js\<close>, which is not among the
  sources: the resolved values and the back-off function are parameters.
\<close>

record tuning =
  keepAlive :: bool
  heartbeatSeconds :: nat
  maxAttempts :: nat
  computeBackoff :: "nat \<Rightarrow> nat"

definition initial_state :: monitor_state where
  "initial_state =
     \<lparr>provider = \<lparr>running = True, connected = False, reconnectAttempts = 0, lastDisconnect = None\<rparr>,
      attempts = 0, factory_calls = 0, close_calls = 0, sleeps = [], error_lines = []\<rparr>"

definition closeListener :: "monitor_state \<Rightarrow> monitor_state" where
  "closeListener s = s\<lparr>close_calls := Suc (close_calls s)\<rparr>"

definition MESSAGE_TIMEOUT_MS :: nat where
  "MESSAGE_TIMEOUT_MS = 30 * 60 * 1000"

definition WATCHDOG_CHECK_MS :: nat where
  "WATCHDOG_CHECK_MS = 60 * 1000"

definition watchdog_reason :: close_reason where
  "watchdog_reason = \<lparr>status = Some 499, isLoggedOut = False\<rparr>"

text \<open>
  The callback of the watchdog timer, run with the clock reading \<open>now\<close> and the
  connection's \<open>lastMessageAt\<close> (\<open>null\<close> until the first inbound message of this
  connection; the test \<open>if (lastMessageAt)\<close> also fails for the time stamp 0). When it
  fires it calls \<open>closeListener\<close> and hands the result to \<open>listener.signalClose\<close>.
\<close>

definition watchdog_check :: "nat \<Rightarrow> nat option \<Rightarrow> close_reason option" where
  "watchdog_check now lastMessageAt =
     (case lastMessageAt of
        None \<Rightarrow> None
      | Some l \<Rightarrow>
          if l = 0 then None
          else if int now - int l > int MESSAGE_TIMEOUT_MS then Some watchdog_reason
          else None)"

text \<open>The first callback that fires; \<open>closeListener\<close> clears the timer, so no later one runs.\<close>

fun first_fire :: "(nat \<times> nat option) list \<Rightarrow> close_reason option" where
  "first_fire [] = None"
| "first_fire ((now, lastMessageAt) # rest) =
     (case watchdog_check now lastMessageAt of
        Some r \<Rightarrow> Some r
      | None \<Rightarrow> first_fire rest)"

text \<open>How one pass of \<open>while (true)\<close> ends.\<close>

datatype pass =
    Continue monitor_state    \<comment> \<open>the end of the body is reached\<close>
  | Break monitor_state       \<comment> \<open>\<open>break\<close>\<close>
  | Return monitor_state      \<comment> \<open>\<open>return\<close> when \<open>keepAlive\<close> is off\<close>
  | Waiting monitor_state     \<comment> \<open>the race never settles\<close>
  | Throw monitor_state       \<comment> \<open>the listener factory rejects\<close>

definition loop_body :: "tuning \<Rightarrow> connection \<Rightarrow> monitor_state \<Rightarrow> pass" where
  "loop_body t c s =
     (if stop_at_top c then Break s
      else if \<not> factory_resolves c then Throw (s\<lparr>factory_calls := Suc (factory_calls s)\<rparr>)
      else
        let s1 = s\<lparr>factory_calls := Suc (factory_calls s),
                   provider := (provider s)\<lparr>connected := True\<rparr>\<rparr> in
        if \<not> keepAlive t then Return (closeListener s1)
        else
          let fired = first_fire (ticks c);
              sw = (if fired = None then s1 else closeListener s1);
              settled = (case fired of
                           None \<Rightarrow> race c
                         | Some r \<Rightarrow> if has_signalClose c then Resolved (Some r) else race c) in
          if settled = Pending then Waiting sw
          else
          let a1 = (if uptimeMs c > heartbeatSeconds t * 1000 then 0 else attempts sw);
              s2 = sw\<lparr>attempts := a1, provider := (provider sw)\<lparr>reconnectAttempts := a1\<rparr>\<rparr> in
          if stop_after_race c \<or> settled = Aborted then Break (closeListener s2)
          else
            let reason = (case settled of
                            Resolved r \<Rightarrow> r
                          | _ \<Rightarrow> Some \<lparr>status = Some 500, isLoggedOut = False\<rparr>);
                statusCode = (case reason of None \<Rightarrow> None | Some r \<Rightarrow> status r);
                loggedOut = (case reason of None \<Rightarrow> False | Some r \<Rightarrow> isLoggedOut r);
                s3 = s2\<lparr>provider := (provider s2)
                          \<lparr>connected := False,
                           lastDisconnect := Some \<lparr>d_status = statusCode, d_loggedOut = loggedOut\<rparr>\<rparr>\<rparr> in
            if loggedOut
            then Break (closeListener (s3\<lparr>error_lines := error_lines s3 @ [LoggedOutLine]\<rparr>))
            else
              let a2 = Suc a1;
                  s4 = s3\<lparr>attempts := a2, provider := (provider s3)\<lparr>reconnectAttempts := a2\<rparr>\<rparr> in
              if maxAttempts t > 0 \<and> a2 \<ge> maxAttempts t
              then Break (closeListener
                            (s4\<lparr>error_lines := error_lines s4 @ [MaxAttemptsLine a2 (maxAttempts t)]\<rparr>))
              else
                let delay = computeBackoff t a2;
                    s5 = closeListener
                           (s4\<lparr>error_lines := error_lines s4 @ [RetryLine a2 (maxAttempts t)]\<rparr>);
                    s6 = s5\<lparr>sleeps := sleeps s5 @ [delay]\<rparr> in
                if sleep_aborted c then Break s6 else Continue s6)"

text \<open>The statements after the loop.\<close>

definition epilogue :: "monitor_state \<Rightarrow> monitor_state" where
  "epilogue s = s\<lparr>provider := (provider s)\<lparr>running := False, connected := False\<rparr>\<rparr>"

text \<open>How a run of \<open>monitorWebProvider\<close> ends.\<close>

datatype run_end =
    Stopped monitor_state     \<comment> \<open>the loop was left and the function returned\<close>
  | Returned monitor_state    \<comment> \<open>returned from inside the loop (\<open>keepAlive\<close> off)\<close>
  | Blocked monitor_state     \<comment> \<open>waits for ever on a connection that never closes\<close>
  | Rejected_run monitor_state \<comment> \<open>the promise of the run rejects\<close>

text \<open>
  The loop. The surroundings are a function from the number of earlier factory calls to
  what happens during that connection. Fuel bounds the passes; \<open>None\<close> is "fuel ran out".
\<close>

fun monitorWebProvider :: "nat \<Rightarrow> tuning \<Rightarrow> (nat \<Rightarrow> connection) \<Rightarrow> monitor_state \<Rightarrow> run_end option" where
  "monitorWebProvider 0 t env s = None"
| "monitorWebProvider (Suc fuel) t env s =
     (case loop_body t (env (factory_calls s)) s of
        Continue s' \<Rightarrow> monitorWebProvider fuel t env s'
      | Break s' \<Rightarrow> Some (Stopped (epilogue s'))
      | Return s' \<Rightarrow> Some (Returned s')
      | Waiting s' \<Rightarrow> Some (Blocked s')
      | Throw s' \<Rightarrow> Some (Rejected_run s'))"

text \<open>A connection that closes at once, for a reason that is not a logout.\<close>

definition closes_at_once :: "tuning \<Rightarrow> connection \<Rightarrow> bool" where
  "closes_at_once t c =
     (\<not> stop_at_top c \<and> factory_resolves c \<and> \<not> stop_after_race c \<and> \<not> sleep_aborted c
      \<and> uptimeMs c \<le> heartbeatSeconds t * 1000
      \<and> ticks c = []
      \<and> (case race c of
            Resolved None \<Rightarrow> True
          | Resolved (Some r) \<Rightarrow> \<not> isLoggedOut r
          | Rejected \<Rightarrow> True
          | _ \<Rightarrow> False))"

text \<open>The state after a pass over a connection that closed at once, up to the lines written.\<close>

definition after_quick_close :: "tuning \<Rightarrow> connection \<Rightarrow> monitor_state \<Rightarrow> monitor_state" where
  "after_quick_close t c s =
     s\<lparr>factory_calls := Suc (factory_calls s), attempts := Suc (attempts s),
       close_calls := Suc (close_calls s),
       provider := (provider s)
         \<lparr>connected := False, reconnectAttempts := Suc (attempts s),
          lastDisconnect := Some \<lparr>d_status = (case race c of Resolved (Some r) \<Rightarrow> status r
                                                | Resolved None \<Rightarrow> None | _ \<Rightarrow> Some 500),
                                  d_loggedOut = False\<rparr>\<rparr>\<rparr>"

section \<open>Collaborators outside the sources\<close>

datatype activation = Mention | Always

record strip_result =
  s_text :: jsstring
  shouldSkip :: bool
  didStrip :: bool

text \<open>
  Functions and constants that \<open>web/auto-reply.ts\<close> imports from modules that are not
  among the sources (\<open>utils.js\<close>, \<open>auto-reply/chunk.js\<close>, \<open>auto-reply/envelope.js\<close>,
  \<open>auto-reply/group-activation.js\<close>, \<open>auto-reply/heartbeat.js\<close>,
  \<open>auto-reply/tokens.js\<close>), and the built-in \<open>String.prototype.toLowerCase\<close>. They are
  parameters of the model. \<open>parseActivationCommand\<close> stands for the \<open>hasCommand\<close> field
  of its result, \<open>stripHeartbeatToken\<close> for the call with \<open>mode: "message"\<close>, and
  \<open>formatAgentEnvelope\<close> takes the fields \<open>from\<close>, \<open>timestamp\<close> and \<open>body\<close> (the
  surface is always \<open>"WhatsApp"\<close>).
\<close>

record deps =
  toLowerCase :: "jsstring \<Rightarrow> jsstring"
  normalizeE164 :: "jsstring \<Rightarrow> jsstring option"
  jidToE164 :: "jsstring \<Rightarrow> jsstring option"
  isSelfChatMode :: "jsstring option \<Rightarrow> jsstring list option \<Rightarrow> bool"
  parseActivationCommand :: "jsstring \<Rightarrow> bool"
  normalizeGroupActivation :: "jsstring option \<Rightarrow> activation option"
  formatAgentEnvelope :: "jsstring \<Rightarrow> nat option \<Rightarrow> jsstring \<Rightarrow> jsstring"
  chunkText :: "jsstring \<Rightarrow> nat \<Rightarrow> jsstring list"
  stripHeartbeatToken :: "jsstring \<Rightarrow> strip_result"
  HEARTBEAT_TOKEN :: jsstring
  SILENT_REPLY_TOKEN :: jsstring

section \<open>Reply delivery\<close>

definition WEB_TEXT_LIMIT :: nat where
  "WEB_TEXT_LIMIT = 4000"

text \<open>A thrown value: an \<open>Error\<close> with its message, or anything else.\<close>

datatype js_error = ErrorObj jsstring | OtherThrown

datatype media_kind = Image | Audio | Video | Document

text \<open>
  One call of \<open>msg.reply\<close> or \<open>msg.sendMedia\<close>, with whether it resolved. Of a media
  message the kind, the caption and the URL it was loaded from are kept.
\<close>

datatype send_event =
    ReplyCall jsstring bool
  | MediaCall media_kind "jsstring option" jsstring bool

text \<open>
  The outside of the delivery engine: \<open>loadWebMedia\<close> (URL and size limit), the outcome of
  the k-th outbound call (\<open>None\<close>: it resolves), and the test
  \<open>/closed|reset|timed\s*out|disconnect/i\<close> on \<open>formatError(err)\<close> (\<open>formatError\<close> is in
  \<open>web/session.js\<close>, outside the sources).
\<close>

record network =
  loadWebMedia :: "jsstring \<Rightarrow> nat \<Rightarrow> js_error + media_kind"
  attempt :: "nat \<Rightarrow> js_error option"
  shouldRetry :: "js_error \<Rightarrow> bool"

record outbound =
  calls :: nat
  trace :: "send_event list"

text \<open>One outbound call: the event is recorded with its outcome.\<close>

definition call :: "network \<Rightarrow> (bool \<Rightarrow> send_event) \<Rightarrow> outbound \<Rightarrow> (js_error + unit) \<times> outbound" where
  "call nw ev w =
     (case attempt nw (calls w) of
        None \<Rightarrow> (Inr (), \<lparr>calls = Suc (calls w), trace = trace w @ [ev True]\<rparr>)
      | Some e \<Rightarrow> (Inl e, \<lparr>calls = Suc (calls w), trace = trace w @ [ev False]\<rparr>))"

text \<open>
  \<open>sendWithRetry\<close>, by the number of attempts left (\<open>maxAttempts = 3\<close> at every call site).
  A failure is thrown at once when it does not look transient or on the last attempt.
  The pause of \<open>500 * attempt\<close> ms between attempts has no effect on the result.
\<close>

fun sendWithRetry :: "network \<Rightarrow> (bool \<Rightarrow> send_event) \<Rightarrow> nat \<Rightarrow> outbound \<Rightarrow> (js_error + unit) \<times> outbound" where
  "sendWithRetry nw ev 0 w = (Inl OtherThrown, w)"
| "sendWithRetry nw ev (Suc left) w =
     (case call nw ev w of
        (Inr u, w') \<Rightarrow> (Inr u, w')
      | (Inl e, w') \<Rightarrow>
          if \<not> shouldRetry nw e \<or> left = 0 then (Inl e, w')
          else sendWithRetry nw ev left w')"

text \<open>The text-only branch: every chunk goes through \<open>sendWithRetry\<close>; the first failure ends it.\<close>

fun send_chunks_retry :: "network \<Rightarrow> jsstring list \<Rightarrow> outbound \<Rightarrow> (js_error + unit) \<times> outbound" where
  "send_chunks_retry nw [] w = (Inr (), w)"
| "send_chunks_retry nw (chunk # rest) w =
     (case sendWithRetry nw (ReplyCall chunk) 3 w of
        (Inl e, w') \<Rightarrow> (Inl e, w')
      | (Inr u, w') \<Rightarrow> send_chunks_retry nw rest w')"

text \<open>The chunks left after the media: plain \<open>msg.reply\<close>, no retry.\<close>

fun send_chunks_plain :: "network \<Rightarrow> jsstring list \<Rightarrow> outbound \<Rightarrow> (js_error + unit) \<times> outbound" where
  "send_chunks_plain nw [] w = (Inr (), w)"
| "send_chunks_plain nw (chunk # rest) w =
     (case call nw (ReplyCall chunk) w of
        (Inl e, w') \<Rightarrow> (Inl e, w')
      | (Inr u, w') \<Rightarrow> send_chunks_plain nw rest w')"

text \<open>The warning sign U+26A0 U+FE0F and the note that follows it.\<close>

definition media_warning :: "js_error \<Rightarrow> jsstring" where
  "media_warning err =
     (case err of
        ErrorObj m \<Rightarrow> [9888, 65039] @ js '' Media failed: '' @ m
      | OtherThrown \<Rightarrow> [9888, 65039] @ js '' Media failed.'')"

text \<open>\<open>parts.filter(Boolean).join("\n")\<close>\<close>

fun join_lines :: "jsstring list \<Rightarrow> jsstring" where
  "join_lines [] = []"
| "join_lines [p] = p"
| "join_lines (p # q # ps) = p @ [10] @ join_lines (q # ps)"

definition fallbackText :: "jsstring \<Rightarrow> js_error \<Rightarrow> jsstring" where
  "fallbackText first err = join_lines (filter (\<lambda>p. p \<noteq> []) [first, media_warning err])"

text \<open>
  The \<open>try\<close> block for one media item: load it, then send it through \<open>sendWithRetry\<close>. The
  four branches on \<open>media.kind\<close> differ in the message they build, not in control flow.
\<close>

definition try_media :: "network \<Rightarrow> nat \<Rightarrow> jsstring \<Rightarrow> jsstring option \<Rightarrow> outbound \<Rightarrow> (js_error + unit) \<times> outbound" where
  "try_media nw maxMediaBytes url caption w =
     (case loadWebMedia nw url maxMediaBytes of
        Inl e \<Rightarrow> (Inl e, w)
      | Inr kind \<Rightarrow> sendWithRetry nw (MediaCall kind caption url) 3 w)"

text \<open>
  The loop over the media list, with the index of the item and the chunks not yet used.
  Item 0 takes the first chunk as its caption (\<open>remainingText.shift() || undefined\<close>). When
  item 0 fails, the fallback text starts with \<open>remainingText.shift() ?? caption ?? ""\<close>, and
  a rejection of that \<open>msg.reply\<close> leaves the function. A later item that fails is only
  logged.
\<close>

fun send_media :: "network \<Rightarrow> nat \<Rightarrow> nat \<Rightarrow> jsstring list \<Rightarrow> jsstring list \<Rightarrow> outbound
                   \<Rightarrow> (js_error + jsstring list) \<times> outbound" where
  "send_media nw maxMediaBytes index remainingText [] w = (Inr remainingText, w)"
| "send_media nw maxMediaBytes index remainingText (url # rest) w =
     (let caption = (if index = 0
                     then (case remainingText of [] \<Rightarrow> None
                           | c # _ \<Rightarrow> if c = [] then None else Some c)
                     else None);
          remaining1 = (if index = 0 then tl remainingText else remainingText) in
      case try_media nw maxMediaBytes url caption w of
        (Inr u, w') \<Rightarrow> send_media nw maxMediaBytes (Suc index) remaining1 rest w'
      | (Inl err, w') \<Rightarrow>
          if index = 0 then
            (let first = (case remaining1 of
                            c # _ \<Rightarrow> c
                          | [] \<Rightarrow> (case caption of Some c \<Rightarrow> c | None \<Rightarrow> []));
                 remaining2 = tl remaining1;
                 fb = fallbackText first err in
             if fb \<noteq> [] then
               (case call nw (ReplyCall fb) w' of
                  (Inl e, w'') \<Rightarrow> (Inl e, w'')
                | (Inr u, w'') \<Rightarrow> send_media nw maxMediaBytes (Suc index) remaining2 rest w'')
             else send_media nw maxMediaBytes (Suc index) remaining2 rest w')
          else send_media nw maxMediaBytes (Suc index) remaining1 rest w')"

text \<open>\<open>replyResult.mediaUrls?.length ? replyResult.mediaUrls : replyResult.mediaUrl ? [replyResult.mediaUrl] : []\<close>\<close>

definition mediaList :: "payload \<Rightarrow> jsstring list" where
  "mediaList p =
     (case mediaUrls p of
        Some (u # us) \<Rightarrow> u # us
      | _ \<Rightarrow> (case mediaUrl p of
                Some u \<Rightarrow> if u \<noteq> [] then [u] else []
              | None \<Rightarrow> []))"

definition deliverWebReply :: "deps \<Rightarrow> network \<Rightarrow> nat \<Rightarrow> payload \<Rightarrow> outbound \<Rightarrow> (js_error + unit) \<times> outbound" where
  "deliverWebReply d nw maxMediaBytes replyResult w =
     (let textChunks = chunkText d (case ptext replyResult of None \<Rightarrow> [] | Some t \<Rightarrow> t) WEB_TEXT_LIMIT;
          ml = mediaList replyResult in
      if ml = [] \<and> textChunks \<noteq> [] then send_chunks_retry nw textChunks w
      else
        (case send_media nw maxMediaBytes 0 textChunks ml w of
           (Inl e, w') \<Rightarrow> (Inl e, w')
         | (Inr remainingText, w') \<Rightarrow> send_chunks_plain nw remainingText w'))"

text \<open>What a stretch of the trace shows: the texts handed to \<open>msg.reply\<close>, and the media messages that went out.\<close>

fun reply_texts :: "send_event list \<Rightarrow> jsstring list" where
  "reply_texts [] = []"
| "reply_texts (ReplyCall t ok # es) = t # reply_texts es"
| "reply_texts (MediaCall k c u ok # es) = reply_texts es"

fun media_sent :: "send_event list \<Rightarrow> send_event list" where
  "media_sent [] = []"
| "media_sent (ReplyCall t ok # es) = media_sent es"
| "media_sent (MediaCall k c u ok # es) = (if ok then MediaCall k c u ok # media_sent es else media_sent es)"

text \<open>Whether an outbound call resolved.\<close>

fun succeeded :: "send_event \<Rightarrow> bool" where
  "succeeded (ReplyCall t ok) = ok"
| "succeeded (MediaCall k c u ok) = ok"

text \<open>
  What the first outbound call made for a media item is: the media message for that URL
  when \<open>loadWebMedia\<close> resolves with its kind, the text with the failure note when it
  rejects.
\<close>

fun answers :: "network \<Rightarrow> nat \<Rightarrow> jsstring \<Rightarrow> send_event \<Rightarrow> bool" where
  "answers nw maxMediaBytes url (MediaCall k c u ok) = (u = url \<and> loadWebMedia nw url maxMediaBytes = Inr k)"
| "answers nw maxMediaBytes url (ReplyCall t ok) =
     (isl (loadWebMedia nw url maxMediaBytes) \<and> sublist (js ''Media failed'') t)"

section \<open>Inbound messages and configuration\<close>

text \<open>\<open>msg.chatType === "group"\<close> or not; a message without the field is a direct one.\<close>

datatype chat_type = Direct | Group

text \<open>
  The fields of an inbound message that the handler reads (the type is declared in
  \<open>web/inbound.js\<close>, outside the sources). \<open>m_id\<close>, \<open>m_from\<close>, \<open>m_to\<close>, \<open>m_body\<close>,
  \<open>m_timestamp\<close> and \<open>m_replyToId\<close> are \<open>id\<close>, \<open>from\<close>, \<open>to\<close>, \<open>body\<close>, \<open>timestamp\<close>
  and \<open>replyToId\<close>.
\<close>

record inbound =
  m_id :: "jsstring option"
  m_from :: jsstring
  m_to :: jsstring
  m_body :: jsstring
  m_timestamp :: "nat option"
  chatType :: chat_type
  conversationId :: "jsstring option"
  senderE164 :: "jsstring option"
  senderName :: "jsstring option"
  selfE164 :: "jsstring option"
  selfJid :: "jsstring option"
  mentionedJids :: "jsstring list option"
  m_replyToId :: "jsstring option"
  replyToBody :: "jsstring option"
  replyToSender :: "jsstring option"

text \<open>
  A compiled mention pattern (\<open>new RegExp(p, "i")\<close>), by its two uses: \<open>re.test(s)\<close> and
  \<open>s.replace(re, " ")\<close>.
\<close>

record regex =
  re_test :: "jsstring \<Rightarrow> bool"
  re_blank :: "jsstring \<Rightarrow> jsstring"

text \<open>
  What the monitor reads from the loaded configuration and from the session store:
  the compiled mention patterns, \<open>whatsapp.allowFrom\<close>, \<open>whatsapp.groups[id].requireMention\<close>
  where it is a boolean, \<open>routing.groupChat.historyLimit\<close>, \<open>messages.messagePrefix\<close>,
  \<open>messages.responsePrefix\<close>, the media size limit, and the \<open>groupActivation\<close> entry of the
  session store under a key.
\<close>

record config =
  mentionRegexes :: "regex list"
  allowFrom :: "jsstring list option"
  requireMentionOf :: "jsstring \<Rightarrow> bool option"
  historyLimit :: "int option"
  messagePrefix :: "jsstring option"
  responsePrefix :: "jsstring option"
  mediaMaxBytes :: nat
  groupActivationOf :: "jsstring \<Rightarrow> jsstring option"

section \<open>Mention detection\<close>

text \<open>\<open>[\u200b-\u200f\u202a-\u202e\u2060-\u206f]\<close>\<close>

definition invisible :: "nat \<Rightarrow> bool" where
  "invisible c = ((8203 \<le> c \<and> c \<le> 8207) \<or> (8234 \<le> c \<and> c \<le> 8238) \<or> (8288 \<le> c \<and> c \<le> 8303))"

definition clean :: "deps \<Rightarrow> jsstring \<Rightarrow> jsstring" where
  "clean d t = toLowerCase d (filter (\<lambda>c. \<not> invisible c) t)"

text \<open>\<open>\d\<close>\<close>

definition digit :: "nat \<Rightarrow> bool" where
  "digit c = (48 \<le> c \<and> c \<le> 57)"

text \<open>
  \<open>msg.selfJid.replace(/:\\d+/, "")\<close>: the pattern, as written in the source, is a colon,
  a backslash and one or more letters d; the first match is removed.
\<close>

fun bareSelf :: "jsstring \<Rightarrow> jsstring" where
  "bareSelf [] = []"
| "bareSelf (c # cs) =
     (if c = 58 \<and> (case cs of b # e # _ \<Rightarrow> b = 92 \<and> e = 100 | _ \<Rightarrow> False)
      then dropWhile (\<lambda>x. x = 100) (tl cs)
      else c # bareSelf cs)"

text \<open>
  The fallback of \<open>isBotMentioned\<close>: the digits of the bot's own number occur in the digits
  of the cleaned body, or in the body without white space and hyphens (the pattern
  \<open>\+?digits\<close> matches exactly where the digits occur).
\<close>

definition own_number_in_body :: "deps \<Rightarrow> inbound \<Rightarrow> bool" where
  "own_number_in_body d msg =
     (case selfE164 msg of
        None \<Rightarrow> False
      | Some self \<Rightarrow>
          if self = [] then False
          else
            (let selfDigits = filter digit self in
             if selfDigits = [] then False
             else
               (let bodyDigits = filter digit (clean d (m_body msg));
                    bodyNoSpace = filter (\<lambda>c. \<not> (js_space c \<or> c = 45)) (m_body msg) in
                sublist selfDigits bodyDigits \<or> sublist selfDigits bodyNoSpace)))"

text \<open>The branch on \<open>msg.mentionedJids\<close>, taken outside self-chat mode.\<close>

definition jid_mentions_self :: "deps \<Rightarrow> inbound \<Rightarrow> bool" where
  "jid_mentions_self d msg =
     (case mentionedJids msg of
        None \<Rightarrow> False
      | Some jids \<Rightarrow>
          (let normalizedMentions =
                 filter (\<lambda>j. j \<noteq> []) (map (\<lambda>jid. case jidToE164 d jid of Some e \<Rightarrow> e | None \<Rightarrow> jid) jids) in
           (case selfE164 msg of
              Some self \<Rightarrow> self \<noteq> [] \<and> self \<in> set normalizedMentions
            | None \<Rightarrow> False)
           \<or> (truthy (selfJid msg) \<and> truthy (selfE164 msg)
               \<and> bareSelf (the (selfJid msg)) \<in> set normalizedMentions)))"

definition isBotMentioned :: "deps \<Rightarrow> config \<Rightarrow> inbound \<Rightarrow> bool" where
  "isBotMentioned d cfg msg =
     (let isSelfChat = isSelfChatMode d (selfE164 msg) (allowFrom cfg);
          hasJids = (case mentionedJids msg of None \<Rightarrow> False | Some jids \<Rightarrow> jids \<noteq> []) in
      if hasJids \<and> \<not> isSelfChat \<and> jid_mentions_self d msg then True
      else if list_ex (\<lambda>re. re_test re (clean d (m_body msg))) (mentionRegexes cfg) then True
      else own_number_in_body d msg)"

section \<open>Owner commands and activation\<close>

text \<open>
  \<open>result.replace(new RegExp(`\\+?${digits}`, "g"), " ")\<close>: every occurrence of the digits,
  with a plus sign in front if there is one, becomes a space. \<open>skip\<close> counts the
  characters of a match still to be dropped.
\<close>

fun blank_number :: "jsstring \<Rightarrow> nat \<Rightarrow> jsstring \<Rightarrow> jsstring" where
  "blank_number digits skip [] = []"
| "blank_number digits skip (c # cs) =
     (if skip > 0 then blank_number digits (skip - 1) cs
      else if c = 43 \<and> prefix digits cs then 32 # blank_number digits (length digits) cs
      else if prefix digits (c # cs) then 32 # blank_number digits (length digits - 1) cs
      else c # blank_number digits 0 cs)"

text \<open>\<open>replace(/\s+/g, " ")\<close>; \<open>in_run\<close> says that the character before was white space.\<close>

fun collapse_spaces :: "bool \<Rightarrow> jsstring \<Rightarrow> jsstring" where
  "collapse_spaces in_run [] = []"
| "collapse_spaces in_run (c # cs) =
     (if js_space c then (if in_run then collapse_spaces True cs else 32 # collapse_spaces True cs)
      else c # collapse_spaces False cs)"

definition stripMentionsForCommand :: "config \<Rightarrow> jsstring \<Rightarrow> jsstring option \<Rightarrow> jsstring" where
  "stripMentionsForCommand cfg t self =
     (let r1 = fold (\<lambda>re acc. re_blank re acc) (mentionRegexes cfg) t;
          r2 = (case self of
                  None \<Rightarrow> r1
                | Some e \<Rightarrow>
                    (let digits = filter digit e in
                     if e = [] \<or> digits = [] then r1 else blank_number digits 0 r1)) in
      trim (collapse_spaces False r2))"

definition isStatusCommand :: "deps \<Rightarrow> jsstring \<Rightarrow> bool" where
  "isStatusCommand d b =
     (let trimmed = toLowerCase d (trim b) in
      if trimmed = [] then False
      else trimmed = js ''/status'' \<or> trimmed = js ''status'' \<or> prefix (js ''/status '') trimmed)"

definition resolveOwnerList :: "deps \<Rightarrow> config \<Rightarrow> jsstring option \<Rightarrow> jsstring list" where
  "resolveOwnerList d cfg self =
     (let raw = (case allowFrom cfg of
                   Some (a # as) \<Rightarrow> a # as
                 | _ \<Rightarrow> (case self of Some e \<Rightarrow> if e \<noteq> [] then [e] else [] | None \<Rightarrow> [])) in
      filter (\<lambda>e. e \<noteq> [])
        (map (\<lambda>e. case normalizeE164 d e of Some n \<Rightarrow> n | None \<Rightarrow> [])
           (filter (\<lambda>e. e \<noteq> [] \<and> e \<noteq> js ''*'') raw)))"

definition isOwnerSender :: "deps \<Rightarrow> config \<Rightarrow> inbound \<Rightarrow> bool" where
  "isOwnerSender d cfg msg =
     (case normalizeE164 d (case senderE164 msg of Some e \<Rightarrow> e | None \<Rightarrow> []) of
        None \<Rightarrow> False
      | Some who \<Rightarrow>
          if who = [] then False
          else who \<in> set (resolveOwnerList d cfg (selfE164 msg)))"

definition resolveGroupRequireMentionFor :: "config \<Rightarrow> jsstring \<Rightarrow> bool" where
  "resolveGroupRequireMentionFor cfg conv =
     (case requireMentionOf cfg conv of
        Some b \<Rightarrow> b
      | None \<Rightarrow> (case requireMentionOf cfg (js ''*'') of Some b \<Rightarrow> b | None \<Rightarrow> True))"

definition resolveGroupActivationFor :: "deps \<Rightarrow> config \<Rightarrow> jsstring \<Rightarrow> activation" where
  "resolveGroupActivationFor d cfg conv =
     (let key = (if prefix (js ''group:'') conv then conv else js ''whatsapp:group:'' @ conv);
          requireMention = resolveGroupRequireMentionFor cfg conv;
          defaultActivation = (if requireMention = False then Always else Mention) in
      case normalizeGroupActivation d (groupActivationOf cfg key) of
        Some a \<Rightarrow> a
      | None \<Rightarrow> defaultActivation)"

section \<open>The envelope handed to the resolver\<close>

definition formatReplyContext :: "inbound \<Rightarrow> jsstring option" where
  "formatReplyContext msg =
     (if \<not> truthy (replyToBody msg) then None
      else
        (let who = (case replyToSender msg of Some x \<Rightarrow> x | None \<Rightarrow> js ''unknown sender'');
             idPart = (if truthy (m_replyToId msg) then js '' id:'' @ the (m_replyToId msg) else []) in
         Some (js ''[Replying to '' @ who @ idPart @ js '']'' @ [10] @ the (replyToBody msg)
               @ [10] @ js ''[/Replying]'')))"

text \<open>\<open>msg.from?.replace(/^whatsapp:/, "")\<close>\<close>

definition strip_whatsapp :: "jsstring \<Rightarrow> jsstring" where
  "strip_whatsapp f = (if prefix (js ''whatsapp:'') f then drop 9 f else f)"

definition buildLine :: "deps \<Rightarrow> config \<Rightarrow> inbound \<Rightarrow> jsstring" where
  "buildLine d cfg msg =
     (let mp = (case messagePrefix cfg of
                  Some x \<Rightarrow> x
                | None \<Rightarrow> (case allowFrom cfg of Some (a # as) \<Rightarrow> [] | _ \<Rightarrow> js ''[clawdis]''));
          prefixStr = (if mp \<noteq> [] then mp @ js '' '' else []);
          senderLabel = (if chatType msg = Group
                         then (case senderName msg of
                                 Some n \<Rightarrow> n
                               | None \<Rightarrow> (case senderE164 msg of Some e \<Rightarrow> e | None \<Rightarrow> js ''Someone''))
                              @ js '': ''
                         else []);
          baseLine = prefixStr @ senderLabel @ m_body msg
                     @ (case formatReplyContext msg of
                          Some rc \<Rightarrow> if rc \<noteq> [] then [10, 10] @ rc else []
                        | None \<Rightarrow> []) in
      formatAgentEnvelope d (if chatType msg = Group then m_from msg else strip_whatsapp (m_from msg))
        (m_timestamp msg) baseLine)"

text \<open>\<open>parts.join("\\n")\<close>: the separator in the source is a backslash and the letter n.\<close>

fun join_bsn :: "jsstring list \<Rightarrow> jsstring" where
  "join_bsn [] = []"
| "join_bsn [p] = p"
| "join_bsn (p # q # ps) = p @ [92, 110] @ join_bsn (q # ps)"

definition conversation :: "inbound \<Rightarrow> jsstring" where
  "conversation msg = (case conversationId msg of Some c \<Rightarrow> c | None \<Rightarrow> m_from msg)"

text \<open>
  The body given to the resolver, as \<open>processMessage\<close> composes it from the line of the
  message and, in a group, the buffered history without its last entry.
\<close>

definition combinedBody :: "deps \<Rightarrow> config \<Rightarrow> (jsstring \<rightharpoonup> hist_entry list) \<Rightarrow> inbound \<Rightarrow> jsstring" where
  "combinedBody d cfg histories msg =
     (if chatType msg = Group then
        (let history = (case histories (conversation msg) of Some h \<Rightarrow> h | None \<Rightarrow> []);
             historyWithoutCurrent = butlast history;
             c1 = (if historyWithoutCurrent \<noteq> [] then
                     js ''[Chat messages since your last reply - for context]'' @ [92, 110]
                     @ join_bsn (map (\<lambda>m. formatAgentEnvelope d (conversation msg) (timestamp m)
                                             (sender m @ js '': '' @ body m))
                                   historyWithoutCurrent)
                     @ [92, 110, 92, 110] @ js ''[Current message - respond to this]'' @ [92, 110]
                     @ buildLine d cfg msg
                   else buildLine d cfg msg);
             senderLabel = (if truthy (senderName msg) \<and> truthy (senderE164 msg)
                            then the (senderName msg) @ js '' ('' @ the (senderE164 msg) @ js '')''
                            else (case senderName msg of
                                    Some n \<Rightarrow> n
                                  | None \<Rightarrow> (case senderE164 msg of Some e \<Rightarrow> e | None \<Rightarrow> js ''Unknown''))) in
         c1 @ [92, 110] @ js ''[from: '' @ senderLabel @ js '']'')
      else buildLine d cfg msg)"


section \<open>The message handler\<close>

text \<open>
  What the reply resolver does with one envelope: the payloads it streams through
  \<open>onToolResult\<close>, in order, and then either its final payloads (\<open>undefined\<close> is the empty
  list, a single payload a list of one) or a rejection (\<open>None\<close>).
\<close>

record resolution =
  tool_results :: "payload list"
  final :: "payload list option"

text \<open>The resolver sees the composed body, the message, and \<open>WasMentioned\<close>.\<close>

type_synonym resolver = "jsstring \<Rightarrow> inbound \<Rightarrow> bool option \<Rightarrow> resolution"

text \<open>
  The variables that the handler shares across messages, and what it does to the
  outside: the echo set, the group histories, the outbound calls, the body of every
  resolver call, and for every call of \<open>deliverWebReply\<close> whether it completed.
\<close>

record handler_state =
  recentlySent :: "jsstring list"
  groupHistories :: "jsstring \<rightharpoonup> hist_entry list"
  net_out :: outbound
  resolver_bodies :: "jsstring list"
  delivered :: "bool list"

text \<open>
  The treatment of a payload before delivery, the same for tool results and final
  replies: a stray heartbeat token is stripped (the payload is dropped when nothing but
  the token is left and there is no media), then the response prefix is put in front.
\<close>

definition strip_and_prefix :: "deps \<Rightarrow> config \<Rightarrow> payload \<Rightarrow> payload option" where
  "strip_and_prefix d cfg p =
     (let stripped =
            (case ptext p of
               None \<Rightarrow> Some p
             | Some t \<Rightarrow>
                 if sublist (HEARTBEAT_TOKEN d) t then
                   (let st = stripHeartbeatToken d t in
                    if shouldSkip st \<and> \<not> hasMedia p then None
                    else Some (p\<lparr>ptext := Some (s_text st)\<rparr>))
                 else Some p) in
      case stripped of
        None \<Rightarrow> None
      | Some q \<Rightarrow>
          (case (responsePrefix cfg, ptext q) of
             (Some rp, Some t) \<Rightarrow>
               if rp \<noteq> [] \<and> t \<noteq> [] \<and> trim t \<noteq> HEARTBEAT_TOKEN d \<and> \<not> prefix rp t
               then Some (q\<lparr>ptext := Some (rp @ js '' '' @ t)\<rparr>)
               else Some q
           | _ \<Rightarrow> Some q))"

text \<open>The guards of \<open>sendToolResult\<close>: an empty payload and a silent reply are dropped.\<close>

definition accept_tool :: "deps \<Rightarrow> config \<Rightarrow> payload \<Rightarrow> payload option" where
  "accept_tool d cfg p =
     (if \<not> truthy (ptext p) \<and> \<not> hasMedia p then None
      else if isSilentReply (SILENT_REPLY_TOKEN d) (Some p) then None
      else strip_and_prefix d cfg p)"

text \<open>
  The chain of tool-result deliveries. A delivery that completes sets \<open>didSendReply\<close> and
  records the text in the echo set; one that rejects is logged.
\<close>

fun deliver_tools :: "deps \<Rightarrow> config \<Rightarrow> network \<Rightarrow> payload list \<Rightarrow> bool \<Rightarrow> handler_state
                      \<Rightarrow> bool \<times> handler_state" where
  "deliver_tools d cfg nw [] didSendReply s = (didSendReply, s)"
| "deliver_tools d cfg nw (p # ps) didSendReply s =
     (case accept_tool d cfg p of
        None \<Rightarrow> deliver_tools d cfg nw ps didSendReply s
      | Some toolPayload \<Rightarrow>
          (case deliverWebReply d nw (mediaMaxBytes cfg) toolPayload (net_out s) of
             (Inr u, w) \<Rightarrow>
               deliver_tools d cfg nw ps True
                 (s\<lparr>net_out := w, delivered := delivered s @ [True],
                    recentlySent := record_tool_sent (ptext toolPayload) (recentlySent s)\<rparr>)
           | (Inl e, w) \<Rightarrow>
               deliver_tools d cfg nw ps didSendReply
                 (s\<lparr>net_out := w, delivered := delivered s @ [False]\<rparr>)))"

text \<open>The loop over the sendable final replies.\<close>

fun deliver_finals :: "deps \<Rightarrow> config \<Rightarrow> network \<Rightarrow> jsstring \<Rightarrow> payload list \<Rightarrow> bool \<Rightarrow> handler_state
                       \<Rightarrow> bool \<times> handler_state" where
  "deliver_finals d cfg nw cb [] didSendReply s = (didSendReply, s)"
| "deliver_finals d cfg nw cb (p # ps) didSendReply s =
     (case strip_and_prefix d cfg p of
        None \<Rightarrow> deliver_finals d cfg nw cb ps didSendReply s
      | Some replyPayload \<Rightarrow>
          (case deliverWebReply d nw (mediaMaxBytes cfg) replyPayload (net_out s) of
             (Inr u, w) \<Rightarrow>
               deliver_finals d cfg nw cb ps True
                 (s\<lparr>net_out := w, delivered := delivered s @ [True],
                    recentlySent := record_reply_sent (ptext replyPayload) cb (recentlySent s)\<rparr>)
           | (Inl e, w) \<Rightarrow>
               deliver_finals d cfg nw cb ps didSendReply
                 (s\<lparr>net_out := w, delivered := delivered s @ [False]\<rparr>)))"

text \<open>How \<open>processMessage\<close> ends: at the echo test, with the resolver's rejection, or at its end.\<close>

datatype process_end = CombinedEcho | Threw | Done

definition clear_history :: "jsstring \<Rightarrow> handler_state \<Rightarrow> handler_state" where
  "clear_history conv s = s\<lparr>groupHistories := (groupHistories s)(conv \<mapsto> [])\<rparr>"

text \<open>
  \<open>processMessage\<close>. The tool results are delivered through a promise chain that is
  started while the resolver runs and awaited after it returns; the chain runs to its
  end also when the resolver rejects. The update of the last route for a direct chat
  writes to the session store only and is left out.
\<close>

definition processMessage :: "deps \<Rightarrow> config \<Rightarrow> network \<Rightarrow> resolver \<Rightarrow> handler_state \<Rightarrow> inbound
                              \<Rightarrow> bool option \<Rightarrow> process_end \<times> handler_state" where
  "processMessage d cfg nw rv s msg wasMentioned =
     (let cb = combinedBody d cfg (groupHistories s) msg;
          shouldClearGroupHistory = (chatType msg = Group) in
      case echo_consume cb (recentlySent s) of
        (True, rs) \<Rightarrow> (CombinedEcho, s\<lparr>recentlySent := rs\<rparr>)
      | (False, rs) \<Rightarrow>
          (let res = rv cb msg wasMentioned;
               s1 = s\<lparr>resolver_bodies := resolver_bodies s @ [cb]\<rparr>;
               (did1, s2) = deliver_tools d cfg nw (tool_results res) False s1 in
           case final res of
             None \<Rightarrow> (Threw, s2)
           | Some replyList \<Rightarrow>
               (let sendable = sendableReplies (SILENT_REPLY_TOKEN d) replyList in
                if sendable = [] then
                  (Done, if shouldClearGroupHistory \<and> did1 then clear_history (conversation msg) s2 else s2)
                else
                  (let (did2, s3) = deliver_finals d cfg nw cb sendable did1 s2 in
                   (Done, if shouldClearGroupHistory \<and> did2
                          then clear_history (conversation msg) s3 else s3)))))"

text \<open>How the \<open>onMessage\<close> callback ends.\<close>

datatype handler_end =
    EchoSkipped                \<comment> \<open>the body was in the echo set\<close>
  | ActivationIgnored          \<comment> \<open>an activation command from someone who is not an owner\<close>
  | StoredForContext           \<comment> \<open>a group message kept for context, no reply\<close>
  | Processed process_end      \<comment> \<open>\<open>processMessage\<close> was called\<close>

definition new_entry :: "inbound \<Rightarrow> hist_entry" where
  "new_entry msg =
     \<lparr>sender = (case senderName msg of
                   Some n \<Rightarrow> n
                 | None \<Rightarrow> (case senderE164 msg of Some e \<Rightarrow> e | None \<Rightarrow> js ''Unknown'')),
      body = m_body msg, timestamp = m_timestamp msg\<rparr>"

text \<open>
  The \<open>onMessage\<close> callback given to the listener factory. \<open>None\<close>: the eviction loop of
  the history never ends. The roster of member names that \<open>noteGroupMember\<close> keeps only
  feeds the \<open>GroupMembers\<close> field of the envelope and is left out.
\<close>

definition onMessage :: "deps \<Rightarrow> config \<Rightarrow> network \<Rightarrow> resolver \<Rightarrow> handler_state \<Rightarrow> inbound
                         \<Rightarrow> (handler_end \<times> handler_state) option" where
  "onMessage d cfg nw rv s msg =
     (case echo_consume (m_body msg) (recentlySent s) of
        (True, rs) \<Rightarrow> Some (EchoSkipped, s\<lparr>recentlySent := rs\<rparr>)
      | (False, rs) \<Rightarrow>
          if chatType msg = Group then
            (let commandBody = stripMentionsForCommand cfg (m_body msg) (selfE164 msg);
                 hasCommand = parseActivationCommand d commandBody;
                 isOwner = isOwnerSender d cfg msg;
                 statusCommand = isStatusCommand d commandBody;
                 shouldBypassMention = (isOwner \<and> (hasCommand \<or> statusCommand)) in
             if hasCommand \<and> \<not> isOwner then Some (ActivationIgnored, s)
             else
               (case (if \<not> shouldBypassMention
                      then map_option (\<lambda>h. (groupHistories s)(conversation msg \<mapsto> h))
                             (history_push (groupHistoryLimit (historyLimit cfg))
                                (case groupHistories s (conversation msg) of Some h \<Rightarrow> h | None \<Rightarrow> [])
                                (new_entry msg))
                      else Some (groupHistories s)) of
                  None \<Rightarrow> None
                | Some gh \<Rightarrow>
                    (let s1 = s\<lparr>groupHistories := gh\<rparr>;
                         wasMentioned = isBotMentioned d cfg msg;
                         requireMention = (resolveGroupActivationFor d cfg (conversation msg) \<noteq> Always) in
                     if \<not> shouldBypassMention \<and> requireMention \<and> \<not> wasMentioned
                     then Some (StoredForContext, s1)
                     else Some (apfst Processed (processMessage d cfg nw rv s1 msg (Some wasMentioned))))))
          else Some (apfst Processed (processMessage d cfg nw rv s msg None)))"

section \<open>Inputs for evaluation\<close>

text \<open>A connection whose \<open>onClose\<close> resolves at once, and the tuning of the repository's tests.\<close>

definition quick_close :: connection where
  "quick_close =
     \<lparr>stop_at_top = False, factory_resolves = True, ticks = [], has_signalClose = False,
      race = Resolved None, uptimeMs = 0, stop_after_race = False, sleep_aborted = False\<rparr>"

definition test_tuning :: "nat \<Rightarrow> tuning" where
  "test_tuning n = \<lparr>keepAlive = True, heartbeatSeconds = 1, maxAttempts = n, computeBackoff = (\<lambda>_. 5)\<rparr>"

definition closes_twice_then_never :: "nat \<Rightarrow> connection" where
  "closes_twice_then_never k = (if k < 2 then quick_close else quick_close\<lparr>race := Pending\<rparr>)"

text \<open>
  A connection on which no inbound message ever arrives and whose transport never
  signals closure: the watchdog runs twice, the second time 31 minutes after the start.
\<close>

definition silent_connection :: connection where
  "silent_connection =
     \<lparr>stop_at_top = False, factory_resolves = True,
      ticks = [(1700000060000, None), (1700001860000, None)],
      has_signalClose = True, race = Pending, uptimeMs = 1860000,
      stop_after_race = False, sleep_aborted = False\<rparr>"

text \<open>Fifty replies' worth of entries in the echo set: one hundred distinct bodies.\<close>

definition earlier_100 :: "jsstring list" where
  "earlier_100 = map (\<lambda>i. [101, i]) [0..<100]"

text \<open>
  Modelled from the spec: \<open>chunkText\<close> (\<open>auto-reply/chunk.js\<close> is not among the sources)
  on a text that offers no natural break point. The specification asks for chunks that
  do not exceed the limit and whose concatenation is the text; this is the split at
  every multiple of the limit.
\<close>

definition hard_split :: "jsstring \<Rightarrow> nat \<Rightarrow> jsstring list" where
  "hard_split t limit =
     map (\<lambda>i. take limit (drop (i * limit) t)) [0..<(length t + limit - 1) div limit]"

text \<open>Stand-ins for the collaborators, used to evaluate the model on concrete inputs.\<close>

definition test_deps :: deps where
  "test_deps =
     \<lparr>toLowerCase = map (\<lambda>c. if 65 \<le> c \<and> c \<le> 90 then c + 32 else c),
      normalizeE164 = Some,
      jidToE164 = (\<lambda>jid. Some (43 # takeWhile (\<lambda>c. c \<noteq> 64) jid)),
      isSelfChatMode = (\<lambda>self allowFrom.
         case (self, allowFrom) of (Some s, Some l) \<Rightarrow> s \<in> set l | _ \<Rightarrow> False),
      parseActivationCommand = (\<lambda>b. prefix (js ''/activation'') b),
      normalizeGroupActivation = (\<lambda>raw.
         if raw = Some (js ''always'') then Some Always
         else if raw = Some (js ''mention'') then Some Mention else None),
      formatAgentEnvelope = (\<lambda>from ts b. js ''[WhatsApp '' @ from @ js ''] '' @ b),
      chunkText = hard_split,
      stripHeartbeatToken = (\<lambda>t. \<lparr>s_text = t, shouldSkip = False, didStrip = False\<rparr>),
      HEARTBEAT_TOKEN = js ''HEARTBEAT_OK'',
      SILENT_REPLY_TOKEN = js ''NO_REPLY''\<rparr>"

definition media_404 :: network where
  "media_404 = \<lparr>loadWebMedia = (\<lambda>url maxBytes. Inl (ErrorObj (js ''404''))),
                attempt = (\<lambda>k. None), shouldRetry = (\<lambda>e. False)\<rparr>"

definition long_caption_reply :: payload where
  "long_caption_reply =
     \<lparr>ptext = Some (replicate 4000 97 @ js ''b''),
      mediaUrl = Some (js ''https://example.com/missing.jpg''),
      mediaUrls = None, replyToId = None\<rparr>"

definition test_config :: config where
  "test_config =
     \<lparr>mentionRegexes = [\<lparr>re_test = sublist (js ''clawd''), re_blank = (\<lambda>t. t)\<rparr>],
      allowFrom = Some [js ''+999''],
      requireMentionOf = (\<lambda>conv. None),
      historyLimit = None, messagePrefix = None, responsePrefix = None,
      mediaMaxBytes = 5242880,
      groupActivationOf = (\<lambda>key. None)\<rparr>"

definition group_msg :: inbound where
  "group_msg =
     \<lparr>m_id = Some (js ''g1''), m_from = js ''123@g.us'', m_to = js ''+2'',
      m_body = js ''@owner ping'', m_timestamp = None, chatType = Group,
      conversationId = Some (js ''123@g.us''), senderE164 = Some (js ''+111''),
      senderName = Some (js ''Alice''), selfE164 = Some (js ''+999''),
      selfJid = Some (js ''999@s.whatsapp.net''),
      mentionedJids = Some [js ''999@s.whatsapp.net''],
      m_replyToId = None, replyToBody = None, replyToSender = None\<rparr>"

definition empty_state :: handler_state where
  "empty_state = \<lparr>recentlySent = [], groupHistories = Map.empty,
                  net_out = \<lparr>calls = 0, trace = []\<rparr>, resolver_bodies = [], delivered = []\<rparr>"

definition quiet_net :: network where
  "quiet_net = \<lparr>loadWebMedia = (\<lambda>url maxBytes. Inr Image), attempt = (\<lambda>k. None),
                shouldRetry = (\<lambda>e. False)\<rparr>"

definition no_reply_resolver :: resolver where
  "no_reply_resolver = (\<lambda>b msg wm. \<lparr>tool_results = [], final = Some []\<rparr>)"

definition owner_status_msg :: inbound where
  "owner_status_msg = group_msg\<lparr>m_body := js ''/status'', senderE164 := Some (js ''+999''),
                                 senderName := Some (js ''Owner''), mentionedJids := None\<rparr>"

definition hello_msg :: inbound where
  "hello_msg = group_msg\<lparr>m_body := js ''hello group'', mentionedJids := None\<rparr>"

definition always_config :: config where
  "always_config = test_config\<lparr>requireMentionOf := (\<lambda>conv. if conv = js ''*'' then Some False else None)\<rparr>"

definition two_buffered :: handler_state where
  "two_buffered = empty_state\<lparr>groupHistories :=
      [js ''123@g.us'' \<mapsto> [\<lparr>sender = js ''Bob'', body = js ''earlier'', timestamp = None\<rparr>,
                             \<lparr>sender = js ''Alice'', body = js ''@owner ping'', timestamp = None\<rparr>]]\<rparr>"

definition token_with_media :: payload where
  "token_with_media = \<lparr>ptext = Some (js '' NO_REPLY ''), mediaUrl = Some (js ''https://x/y.png''),
                       mediaUrls = None, replyToId = None\<rparr>"

text \<open>A reply with a short caption and a media URL.\<close>

definition short_caption_reply :: payload where
  "short_caption_reply =
     \<lparr>ptext = Some (js ''caption''),
      mediaUrl = Some (js ''https://example.com/missing.jpg''),
      mediaUrls = None, replyToId = None\<rparr>"

text \<open>
  A payload with neither text nor media, as a final reply and as a streamed tool result.
\<close>

definition empty_payload :: payload where
  "empty_payload = \<lparr>ptext = None, mediaUrl = None, mediaUrls = None, replyToId = None\<rparr>"

definition empty_reply_resolver :: resolver where
  "empty_reply_resolver = (\<lambda>b msg wm. \<lparr>tool_results = [], final = Some [empty_payload]\<rparr>)"

definition empty_tool_resolver :: resolver where
  "empty_tool_resolver = (\<lambda>b msg wm. \<lparr>tool_results = [empty_payload], final = Some []\<rparr>)"




section \<open>Properties\<close>

subsection \<open>Group history\<close>

lemma trim_history_drop:
  "0 \<le> limit \<Longrightarrow> trim_history limit h = Some (drop (length h - nat limit) h)"
proof (induction "length h" arbitrary: h)
  case 0
  then show ?case by (subst trim_history.simps) simp
next
  case (Suc n)
  show ?case
  proof (cases "int (length h) > limit")
    case False
    then show ?thesis by (subst trim_history.simps) simp
  next
    case True
    from Suc.hyps(2) obtain x t where h: "h = x # t" by (cases h) auto
    with Suc.hyps(2) have "n = length t" by simp
    from Suc.hyps(1) [OF this Suc.prems]
    have "trim_history limit t = Some (drop (length t - nat limit) t)" .
    moreover from True h Suc.prems have "length h - nat limit = Suc (length t - nat limit)"
      by simp
    ultimately show ?thesis using True h
      by (subst trim_history.simps) simp
  qed
qed

lemma drop_last_twice:
  "drop (length (drop (length xs - c) xs @ es) - c) (drop (length xs - c) xs @ es)
   = drop (length (xs @ es) - c) (xs @ es)"
proof -
  let ?a = "length xs - c"
  have e: "drop ?a xs @ es = drop ?a (xs @ es)" by simp
  have "drop (length (drop ?a xs @ es) - c) (drop ?a xs @ es)
      = drop (length (drop ?a (xs @ es)) - c) (drop ?a (xs @ es))"
    by (simp only: e)
  also have "\<dots> = drop (length (drop ?a (xs @ es)) - c + ?a) (xs @ es)"
    by (simp only: drop_drop)
  also have "length (drop ?a (xs @ es)) - c + ?a = length (xs @ es) - c"
    by (simp only: length_drop length_append)
  finally show ?thesis .
qed

lemma history_push_all_drop:
  "0 \<le> limit \<Longrightarrow> es \<noteq> [] \<Longrightarrow>
   history_push_all limit h es = Some (drop (length (h @ es) - nat limit) (h @ es))"
proof (induction es arbitrary: h)
  case Nil
  then show ?case by simp
next
  case (Cons e es)
  let ?h' = "drop (length (h @ [e]) - nat limit) (h @ [e])"
  have push: "history_push limit h e = Some ?h'"
    using Cons.prems(1) by (simp add: history_push_def trim_history_drop)
  show ?case
  proof (cases "es = []")
    case True
    then show ?thesis using push by simp
  next
    case False
    have "history_push_all limit ?h' es = Some (drop (length (?h' @ es) - nat limit) (?h' @ es))"
      using Cons.IH [OF Cons.prems(1) False] .
    also have "drop (length (?h' @ es) - nat limit) (?h' @ es)
             = drop (length ((h @ [e]) @ es) - nat limit) ((h @ [e]) @ es)"
      by (rule drop_last_twice)
    finally have "history_push_all limit ?h' es
                = Some (drop (length (h @ e # es) - nat limit) (h @ e # es))"
      by simp
    then show ?thesis using push by simp
  qed
qed

subsection \<open>The echo set\<close>

lemma record_reply_sent_overflow:
  assumes "distinct rs" "length rs = MAX_RECENT_MESSAGES" "[] \<notin> set rs"
    "t \<noteq> []" "t \<notin> set rs" "c \<notin> set rs" "c \<noteq> t"
  shows "length (record_reply_sent (Some t) c rs) = Suc MAX_RECENT_MESSAGES"
proof -
  from assms(2) obtain k ks where rs: "rs = k # ks"
    by (cases rs) (auto simp: MAX_RECENT_MESSAGES_def)
  have added: "set_add c (set_add t rs) = k # ks @ [t, c]"
    using assms rs by (simp add: set_add_def)
  have k: "k \<noteq> []" using assms(3) rs by auto
  have "k \<notin> set (ks @ [t, c])" using assms rs by auto
  then have rm: "removeAll k (ks @ [t, c]) = ks @ [t, c]" by simp
  have ev: "evict_first (k # ks @ [t, c]) = ks @ [t, c]"
    using assms(2) rs k rm by (simp add: evict_first_def set_delete_def)
  have "record_reply_sent (Some t) c rs = evict_first (k # ks @ [t, c])"
    using assms(4) added by (simp add: record_reply_sent_def)
  then show ?thesis
    using ev assms(2) rs by simp
qed

text \<open>
  C2. The evaluation of the code at the failing input: the echo set holds one hundred
  earlier bodies, and one more reply is delivered whose text and combined body are both
  new. Both are inserted and one entry is evicted, which leaves 101 entries.
\<close>

theorem echo_set_exceeds_max:
  "length earlier_100 = MAX_RECENT_MESSAGES
   \<and> length (record_reply_sent (Some (js ''ok'')) (js ''[WhatsApp] hi'') earlier_100) = 101
   \<and> length (record_tool_sent (Some (js ''ok'')) earlier_100) = 100"
proof -
  have d: "distinct earlier_100" by (simp add: earlier_100_def distinct_map inj_on_def)
  have l: "length earlier_100 = MAX_RECENT_MESSAGES"
    by (simp add: earlier_100_def MAX_RECENT_MESSAGES_def)
  have t: "js ''ok'' \<notin> set earlier_100" by (auto simp: earlier_100_def js_def)
  have c: "js ''[WhatsApp] hi'' \<notin> set earlier_100" by (auto simp: earlier_100_def js_def)
  have e: "[] \<notin> set earlier_100" by (auto simp: earlier_100_def)
  have n: "js ''ok'' \<noteq> []" "js ''[WhatsApp] hi'' \<noteq> js ''ok''" by (simp_all add: js_def)
  have r: "length (record_reply_sent (Some (js ''ok'')) (js ''[WhatsApp] hi'') earlier_100) = 101"
    using record_reply_sent_overflow [OF d l e n(1) t c n(2)] by (simp add: MAX_RECENT_MESSAGES_def)
  obtain k ks where ks: "earlier_100 = k # ks" using l by (cases earlier_100) (auto simp: MAX_RECENT_MESSAGES_def)
  have "k \<noteq> []" "k \<notin> set ks" "k \<noteq> js ''ok''" using e d t unfolding ks by auto
  moreover have "js ''ok'' \<notin> set (k # ks)" "length (k # ks) = MAX_RECENT_MESSAGES"
    using t l unfolding ks by simp_all
  ultimately have "record_tool_sent (Some (js ''ok'')) (k # ks) = ks @ [js ''ok'']"
    using n(1) by (simp add: record_tool_sent_def set_add_def evict_first_def set_delete_def)
  then have "length (record_tool_sent (Some (js ''ok'')) earlier_100) = 100"
    using l unfolding ks by (simp add: MAX_RECENT_MESSAGES_def)
  with l r show ?thesis by simp
qed

subsection \<open>The reconnect loop and the watchdog\<close>

lemma loop_body_quick_break:
  assumes "closes_at_once t c" "keepAlive t" "maxAttempts t > 0" "Suc (attempts s) \<ge> maxAttempts t"
  shows "loop_body t c s =
     Break ((after_quick_close t c s)
       \<lparr>error_lines := error_lines s @ [MaxAttemptsLine (Suc (attempts s)) (maxAttempts t)]\<rparr>)"
  using assms
  by (auto simp: loop_body_def closes_at_once_def Let_def closeListener_def after_quick_close_def
           split: race_outcome.splits option.splits)

lemma loop_body_quick_continue:
  assumes "closes_at_once t c" "keepAlive t" "maxAttempts t = 0 \<or> Suc (attempts s) < maxAttempts t"
  shows "loop_body t c s =
     Continue ((after_quick_close t c s)
       \<lparr>error_lines := error_lines s @ [RetryLine (Suc (attempts s)) (maxAttempts t)],
        sleeps := sleeps s @ [computeBackoff t (Suc (attempts s))]\<rparr>)"
  using assms
  by (auto simp: loop_body_def closes_at_once_def Let_def closeListener_def after_quick_close_def
           split: race_outcome.splits option.splits)

lemma monitor_stops_at_max:
  assumes "keepAlive t" "\<forall>k < maxAttempts t. closes_at_once t (env k)"
  shows "attempts s = factory_calls s \<Longrightarrow> factory_calls s < maxAttempts t \<Longrightarrow>
         maxAttempts t - factory_calls s \<le> fuel \<Longrightarrow>
         \<exists>s'. monitorWebProvider fuel t env s = Some (Stopped s')
              \<and> factory_calls s' = maxAttempts t \<and> attempts s' = maxAttempts t
              \<and> reconnectAttempts (provider s') = maxAttempts t
              \<and> \<not> running (provider s') \<and> \<not> connected (provider s')"
proof (induction fuel arbitrary: s)
  case 0
  then show ?case by simp
next
  case (Suc fuel)
  have q: "closes_at_once t (env (factory_calls s))" using assms(2) Suc.prems(2) by blast
  show ?case
  proof (cases "Suc (attempts s) \<ge> maxAttempts t")
    case True
    then have "Suc (factory_calls s) = maxAttempts t" using Suc.prems by simp
    moreover have "0 < maxAttempts t" using Suc.prems(2) by simp
    ultimately show ?thesis
      using loop_body_quick_break [OF q assms(1) _ True] Suc.prems(1)
      by (simp add: epilogue_def after_quick_close_def)
  next
    case False
    then have lt: "Suc (attempts s) < maxAttempts t" by simp
    let ?s' = "(after_quick_close t (env (factory_calls s)) s)
       \<lparr>error_lines := error_lines s @ [RetryLine (Suc (attempts s)) (maxAttempts t)],
        sleeps := sleeps s @ [computeBackoff t (Suc (attempts s))]\<rparr>"
    have body: "loop_body t (env (factory_calls s)) s = Continue ?s'"
      using loop_body_quick_continue [OF q assms(1)] lt by blast
    have "\<exists>s'. monitorWebProvider fuel t env ?s' = Some (Stopped s')
              \<and> factory_calls s' = maxAttempts t \<and> attempts s' = maxAttempts t
              \<and> reconnectAttempts (provider s') = maxAttempts t
              \<and> \<not> running (provider s') \<and> \<not> connected (provider s')"
      using Suc.prems lt by (intro Suc.IH) (simp_all add: after_quick_close_def)
    then show ?thesis using body by simp
  qed
qed

text \<open>
  C1, as the code has it. With \<open>keepAlive\<close> on, a positive \<open>maxAttempts = N\<close> and a
  listener whose first N connections each close at once for a reason other than a
  logout, the monitor calls the listener factory exactly N times (not N + 1: the N-th
  close already exhausts the attempts), then leaves the loop and returns with
  \<open>running = false\<close>; N passes of fuel are enough, so it neither loops for ever nor
  rejects.
\<close>

theorem monitor_stops_after_max_attempts:
  assumes "keepAlive t" and "0 < maxAttempts t"
    and "\<forall>k < maxAttempts t. closes_at_once t (env k)"
    and "maxAttempts t \<le> fuel"
  shows "\<exists>s'. monitorWebProvider fuel t env initial_state = Some (Stopped s')
            \<and> factory_calls s' = maxAttempts t
            \<and> reconnectAttempts (provider s') = maxAttempts t
            \<and> \<not> running (provider s') \<and> \<not> connected (provider s')"
proof -
  have "\<exists>s'. monitorWebProvider fuel t env initial_state = Some (Stopped s')
              \<and> factory_calls s' = maxAttempts t \<and> attempts s' = maxAttempts t
              \<and> reconnectAttempts (provider s') = maxAttempts t
              \<and> \<not> running (provider s') \<and> \<not> connected (provider s')"
    using assms(2,4)
    by (intro monitor_stops_at_max [OF assms(1,3)]) (simp_all add: initial_state_def)
  then show ?thesis by auto
qed

theorem monitor_stops_after_max_attempts_witness:
  "\<exists>s'. monitorWebProvider 3 (test_tuning 2) closes_twice_then_never initial_state = Some (Stopped s')
       \<and> factory_calls s' = 2 \<and> reconnectAttempts (provider s') = 2
       \<and> \<not> running (provider s') \<and> \<not> connected (provider s')"
  using monitor_stops_after_max_attempts [of "test_tuning 2" closes_twice_then_never 3]
  by (simp add: test_tuning_def closes_twice_then_never_def closes_at_once_def quick_close_def)

text \<open>
  C1 as the specification states it fails: with \<open>maxAttempts = 2\<close> and a listener that
  closes at once twice and then never again, the factory is called twice, not three
  times, and the monitor has stopped.
\<close>

theorem monitor_factory_calls_counterexample:
  "monitorWebProvider 3 (test_tuning 2) closes_twice_then_never initial_state =
     Some (Stopped
       \<lparr>provider = \<lparr>running = False, connected = False, reconnectAttempts = 2,
                    lastDisconnect = Some \<lparr>d_status = None, d_loggedOut = False\<rparr>\<rparr>,
        attempts = 2, factory_calls = 2, close_calls = 2, sleeps = [5],
        error_lines = [RetryLine 1 2, MaxAttemptsLine 2 2]\<rparr>)"
  by (simp add: test_tuning_def closes_twice_then_never_def initial_state_def quick_close_def
      loop_body_def Let_def closeListener_def epilogue_def numeral_3_eq_3)

lemma watchdog_check_cases:
  "watchdog_check now l = None \<or> watchdog_check now l = Some watchdog_reason"
  by (simp add: watchdog_check_def split: option.splits)

lemma first_fire_member:
  "(now, Some l) \<in> set ts \<Longrightarrow> l \<noteq> 0 \<Longrightarrow> now > l + MESSAGE_TIMEOUT_MS \<Longrightarrow>
   first_fire ts = Some watchdog_reason"
proof (induction ts)
  case Nil
  then show ?case by simp
next
  case (Cons x ts)
  obtain n m where x: "x = (n, m)" by (cases x)
  show ?case
  proof (cases "watchdog_check n m")
    case None
    then have "(n, m) \<noteq> (now, Some l)"
      using Cons.prems(2,3) by (auto simp: watchdog_check_def)
    then have "(now, Some l) \<in> set ts" using Cons.prems(1) x by auto
    then have "first_fire ts = Some watchdog_reason" using Cons.IH Cons.prems(2,3) by blast
    then show ?thesis using x None by simp
  next
    case (Some r)
    then show ?thesis using watchdog_check_cases [of n m] x by simp
  qed
qed

text \<open>
  C4, as the code has it. With \<open>keepAlive\<close> on, once an inbound message has arrived on
  the current connection (\<open>lastMessageAt\<close> is set and not 0) and a watchdog check finds
  more than 30 minutes gone since the last one, the watchdog calls \<open>closeListener\<close> and
  signals closure with status 499, not logged out; with a listener that offers
  \<open>signalClose\<close> the loop then goes on to reconnect although \<open>onClose\<close> never settled
  by itself, unless a stop was requested or the attempts are exhausted. On a
  connection that has not received any message the watchdog never fires.
\<close>

theorem watchdog_forces_reconnect:
  assumes "keepAlive t" and "\<not> stop_at_top c" and "factory_resolves c"
    and "has_signalClose c" and "race c = Pending"
    and "(now, Some l) \<in> set (ticks c)" and "l \<noteq> 0" and "now > l + MESSAGE_TIMEOUT_MS"
    and "\<not> stop_after_race c" and "\<not> sleep_aborted c"
    and "maxAttempts t = 0
         \<or> Suc (if uptimeMs c > heartbeatSeconds t * 1000 then 0 else attempts s) < maxAttempts t"
  shows "watchdog_check now (Some l) = Some watchdog_reason
       \<and> watchdog_check now None = None
       \<and> (\<exists>s'. loop_body t c s = Continue s'
              \<and> factory_calls s' = Suc (factory_calls s)
              \<and> close_calls s' = close_calls s + 2
              \<and> lastDisconnect (provider s') = Some \<lparr>d_status = Some 499, d_loggedOut = False\<rparr>)"
proof -
  have f: "first_fire (ticks c) = Some watchdog_reason"
    using first_fire_member [OF assms(6,7,8)] .
  have w: "watchdog_check now (Some l) = Some watchdog_reason"
    using assms(7,8) by (simp add: watchdog_check_def)
  have n: "watchdog_check now None = None" by (simp add: watchdog_check_def)
  have "\<exists>s'. loop_body t c s = Continue s'
              \<and> factory_calls s' = Suc (factory_calls s)
              \<and> close_calls s' = close_calls s + 2
              \<and> lastDisconnect (provider s') = Some \<lparr>d_status = Some 499, d_loggedOut = False\<rparr>"
    using assms(1-5,9-11) f
    by (auto simp: loop_body_def Let_def closeListener_def watchdog_reason_def)
  with w n show ?thesis by blast
qed

theorem watchdog_forces_reconnect_witness:
  "\<exists>s'. loop_body (test_tuning 3)
          (silent_connection\<lparr>ticks := [(1700000060000, Some 1700000000000),
                                       (1700001860000, Some 1700000000000)]\<rparr>) initial_state
        = Continue s'
      \<and> factory_calls s' = 1 \<and> close_calls s' = 2
      \<and> lastDisconnect (provider s') = Some \<lparr>d_status = Some 499, d_loggedOut = False\<rparr>"
  using watchdog_forces_reconnect [of "test_tuning 3"
      "silent_connection\<lparr>ticks := [(1700000060000, Some 1700000000000),
                                   (1700001860000, Some 1700000000000)]\<rparr>"
      1700001860000 1700000000000 initial_state]
  by (simp add: test_tuning_def silent_connection_def initial_state_def MESSAGE_TIMEOUT_MS_def
      watchdog_check_def watchdog_reason_def numeral_2_eq_2)

text \<open>
  C4 as the specification states it fails: a connection is up with \<open>keepAlive\<close> on, no
  inbound message arrives for 31 minutes, and the watchdog does nothing; the monitor
  keeps waiting on the connection and \<open>closeListener\<close> is never called.
\<close>

theorem watchdog_silent_connection_counterexample:
  "loop_body (test_tuning 3) silent_connection initial_state =
     Waiting
       \<lparr>provider = \<lparr>running = True, connected = True, reconnectAttempts = 0, lastDisconnect = None\<rparr>,
        attempts = 0, factory_calls = 1, close_calls = 0, sleeps = [], error_lines = []\<rparr>"
  by (simp add: test_tuning_def silent_connection_def initial_state_def loop_body_def Let_def
      watchdog_check_def)

subsection \<open>Delivery and the media fallback\<close>

lemma hard_split_two:
  assumes "length xs = n" "ys \<noteq> []" "length ys \<le> n"
  shows "hard_split (xs @ ys) n = [xs, ys]"
proof -
  have n: "0 < n" using assms by (cases n) auto
  have "(length (xs @ ys) + n - 1) div n = 2"
  proof -
    obtain k where k: "length ys = Suc k" using assms(2) by (cases ys) auto
    have "length (xs @ ys) + n - 1 = 2 * n + k" using assms(1) k by simp
    moreover have "k < n" using assms(3) k by simp
    ultimately show ?thesis by simp
  qed
  moreover have "[0..<2] = [0, Suc 0]" by (simp add: upt_rec numeral_2_eq_2)
  ultimately show ?thesis using assms by (simp add: hard_split_def)
qed

lemma call_trace:
  "call nw ev w = (r, w') \<Longrightarrow> trace w' = trace w @ [ev (r = Inr ())]"
  by (auto simp: call_def split: option.splits)

lemma sendWithRetry_media_trace:
  "sendWithRetry nw (MediaCall k c u) n w = (r, w') \<Longrightarrow>
   \<exists>evs. trace w' = trace w @ evs \<and> reply_texts evs = []
        \<and> (isl r \<longrightarrow> media_sent evs = [])"
proof (induction n arbitrary: w)
  case 0
  then show ?case by auto
next
  case (Suc n)
  obtain r1 w1 where c: "call nw (MediaCall k c u) w = (r1, w1)" by (cases "call nw (MediaCall k c u) w")
  note t = call_trace [OF c]
  show ?case
  proof (cases r1)
    case (Inr x)
    then show ?thesis using Suc.prems c t by auto
  next
    case (Inl e)
    show ?thesis
    proof (cases "\<not> shouldRetry nw e \<or> n = 0")
      case True
      then show ?thesis using Suc.prems c t Inl by auto
    next
      case False
      then have "sendWithRetry nw (MediaCall k c u) n w1 = (r, w')"
        using Suc.prems c Inl by simp
      from Suc.IH [OF this] obtain evs where
        "trace w' = trace w1 @ evs" "reply_texts evs = []" "isl r \<longrightarrow> media_sent evs = []"
        by blast
      then show ?thesis using t Inl by auto
    qed
  qed
qed

lemma try_media_trace:
  "try_media nw mb u c w = (r, w') \<Longrightarrow>
   \<exists>evs. trace w' = trace w @ evs \<and> reply_texts evs = []
        \<and> (isl r \<longrightarrow> media_sent evs = [])"
  by (auto simp: try_media_def split: sum.splits dest: sendWithRetry_media_trace)

lemma reply_texts_append: "reply_texts (xs @ ys) = reply_texts xs @ reply_texts ys"
  by (induction xs rule: reply_texts.induct) auto

lemma media_sent_append: "media_sent (xs @ ys) = media_sent xs @ media_sent ys"
  by (induction xs rule: media_sent.induct) auto

lemma send_media_later_no_reply:
  "0 < index \<Longrightarrow> send_media nw mb index remaining urls w = (r, w') \<Longrightarrow>
   \<exists>evs. trace w' = trace w @ evs \<and> reply_texts evs = []"
proof (induction urls arbitrary: index remaining w)
  case Nil
  then show ?case by auto
next
  case (Cons url rest)
  obtain r1 w1 where t: "try_media nw mb url None w = (r1, w1)" by (cases "try_media nw mb url None w")
  from try_media_trace [OF t] obtain evs1 where
    e1: "trace w1 = trace w @ evs1" "reply_texts evs1 = []" by blast
  have "send_media nw mb (Suc index) remaining rest w1 = (r, w')"
    using Cons.prems t by (cases r1) (auto simp: Let_def)
  from Cons.IH [OF _ this] obtain evs2 where
    "trace w' = trace w1 @ evs2" "reply_texts evs2 = []" by auto
  then show ?case using e1 by (auto simp: reply_texts_append)
qed

lemma media_warning_nonempty: "media_warning err \<noteq> []"
  by (cases err) (simp_all add: media_warning_def)

lemma media_warning_indicator: "sublist (js ''Media failed'') (media_warning err)"
proof (cases err)
  case (ErrorObj m)
  have "media_warning err = [9888, 65039, 32] @ js ''Media failed'' @ (js '': '' @ m)"
    using ErrorObj by (simp add: media_warning_def js_def)
  then show ?thesis by (simp only: sublist_appendI)
next
  case OtherThrown
  have "media_warning err = [9888, 65039, 32] @ js ''Media failed'' @ js ''.''"
    using OtherThrown by (simp add: media_warning_def js_def)
  then show ?thesis by (simp only: sublist_appendI)
qed

lemma long_chunks:
  "chunkText test_deps (replicate 4000 97 @ [98]) WEB_TEXT_LIMIT = [replicate 4000 97, [98]]"
  by (simp add: test_deps_def WEB_TEXT_LIMIT_def hard_split_two)

text \<open>
  A reply whose text makes a single chunk, with exactly one media item whose load or send
  fails: the delivery makes exactly one call of \<open>msg.reply\<close>, with the caption, a line
  feed and the failure note (which contains "Media failed"), and no media message goes
  out. In the loop over the media list, an item after the first never leads to a call of
  \<open>msg.reply\<close>, whatever fails.
\<close>

lemma media_fallback_single_chunk:
  assumes "ptext p = Some t" and "c \<noteq> []" and "chunkText d t WEB_TEXT_LIMIT = [c]"
    and "mediaList p = [u]"
    and "try_media nw maxMediaBytes u (Some c) w = (Inl err, w1)"
  shows "(\<exists>evs. trace (snd (deliverWebReply d nw maxMediaBytes p w)) = trace w @ evs
            \<and> reply_texts evs = [c @ [10] @ media_warning err]
            \<and> media_sent evs = [])
       \<and> sublist c (c @ [10] @ media_warning err)
       \<and> sublist (js ''Media failed'') (c @ [10] @ media_warning err)
       \<and> (\<forall>index remaining urls w0. 0 < index \<longrightarrow>
            (\<exists>evs. trace (snd (send_media nw maxMediaBytes index remaining urls w0)) = trace w0 @ evs
                 \<and> reply_texts evs = []))"
proof -
  let ?fb = "c @ [10] @ media_warning err"
  from try_media_trace [OF assms(5)] obtain evs1 where
    e1: "trace w1 = trace w @ evs1" "reply_texts evs1 = []" "media_sent evs1 = []" by auto
  have fb: "fallbackText c err = ?fb"
    using assms(2) media_warning_nonempty [of err] by (simp add: fallbackText_def)
  obtain r2 w2 where c: "call nw (ReplyCall ?fb) w1 = (r2, w2)" by (cases "call nw (ReplyCall ?fb) w1")
  note t2 = call_trace [OF c]
  have sm: "send_media nw maxMediaBytes 0 [c] [u] w
            = (case r2 of Inl e \<Rightarrow> (Inl e, w2) | Inr x \<Rightarrow> (Inr [], w2))"
    using assms(2,5) fb c by (cases r2) (simp_all add: Let_def)
  have "deliverWebReply d nw maxMediaBytes p w
      = (case send_media nw maxMediaBytes 0 [c] [u] w of
           (Inl e, w') \<Rightarrow> (Inl e, w')
         | (Inr remainingText, w') \<Rightarrow> send_chunks_plain nw remainingText w')"
    using assms(1,3,4) by (simp add: deliverWebReply_def Let_def del: send_media.simps)
  then have "snd (deliverWebReply d nw maxMediaBytes p w) = w2"
    unfolding sm by (cases r2) simp_all
  then have a: "\<exists>evs. trace (snd (deliverWebReply d nw maxMediaBytes p w)) = trace w @ evs
            \<and> reply_texts evs = [?fb] \<and> media_sent evs = []"
    using e1 t2 by (simp add: reply_texts_append media_sent_append)
  have b: "sublist c ?fb" by simp
  have "sublist (js ''Media failed'') (media_warning err)" by (rule media_warning_indicator)
  then obtain ps ss where "media_warning err = ps @ js ''Media failed'' @ ss"
    unfolding sublist_def by blast
  then have "?fb = (c @ [10] @ ps) @ js ''Media failed'' @ ss" by simp
  then have c': "sublist (js ''Media failed'') ?fb" by (simp only: sublist_appendI)
  have d': "\<forall>index remaining urls w0. 0 < index \<longrightarrow>
            (\<exists>evs. trace (snd (send_media nw maxMediaBytes index remaining urls w0)) = trace w0 @ evs
                 \<and> reply_texts evs = [])"
  proof (intro allI impI)
    fix index :: nat and remaining urls w0
    assume pos: "0 < index"
    obtain r w' where sm': "send_media nw maxMediaBytes index remaining urls w0 = (r, w')"
      by (cases "send_media nw maxMediaBytes index remaining urls w0")
    from send_media_later_no_reply [OF pos sm'] sm'
    show "\<exists>evs. trace (snd (send_media nw maxMediaBytes index remaining urls w0)) = trace w0 @ evs
                 \<and> reply_texts evs = []" by simp
  qed
  from a b c' d' show ?thesis by blast
qed

text \<open>
  C3. The evaluation of the code at the failing input: a reply whose text has 4001
  characters, which makes two chunks, with one media URL that cannot be loaded. The
  first chunk is taken off the list as the caption of the media message; when the media
  fails, the fallback text starts with the next chunk of the list. The one text message
  that goes out holds the second chunk and the failure note, and the first 4000
  characters of the reply are in no message. With a text of a single chunk the same
  delivery sends the caption with the failure note.
\<close>

theorem media_fallback_loses_caption:
  "chunkText test_deps (replicate 4000 97 @ js ''b'') WEB_TEXT_LIMIT = [replicate 4000 97, js ''b'']
   \<and> ptext long_caption_reply = Some (replicate 4000 97 @ js ''b'')
   \<and> snd (deliverWebReply test_deps media_404 5242880 long_caption_reply \<lparr>calls = 0, trace = []\<rparr>)
       = \<lparr>calls = 1, trace = [ReplyCall (js ''b'' @ [10] @ media_warning (ErrorObj (js ''404''))) True]\<rparr>
   \<and> \<not> sublist (replicate 4000 97) (js ''b'' @ [10] @ media_warning (ErrorObj (js ''404'')))
   \<and> snd (deliverWebReply test_deps media_404 5242880 short_caption_reply \<lparr>calls = 0, trace = []\<rparr>)
       = \<lparr>calls = 1,
          trace = [ReplyCall (js ''caption'' @ [10] @ media_warning (ErrorObj (js ''404''))) True]\<rparr>"
proof -
  have b: "js ''b'' = [98]" by (simp add: js_def)
  have "snd (deliverWebReply test_deps media_404 5242880 long_caption_reply \<lparr>calls = 0, trace = []\<rparr>)
     = \<lparr>calls = 1, trace = [ReplyCall (js ''b'' @ [10] @ media_warning (ErrorObj (js ''404''))) True]\<rparr>"
    by (simp add: deliverWebReply_def long_caption_reply_def long_chunks mediaList_def js_def
        media_404_def try_media_def Let_def fallbackText_def media_warning_def call_def)
  moreover have "\<not> sublist (replicate 4000 97) (js ''b'' @ [10] @ media_warning (ErrorObj (js ''404'')))"
  proof
    assume "sublist (replicate 4000 97) (js ''b'' @ [10] @ media_warning (ErrorObj (js ''404'')))"
    then have "length (replicate 4000 (97::nat)) \<le> length (js ''b'' @ [10] @ media_warning (ErrorObj (js ''404'')))"
      by (rule sublist_length_le)
    then show False by (simp add: js_def media_warning_def)
  qed
  moreover have "snd (deliverWebReply test_deps media_404 5242880 short_caption_reply \<lparr>calls = 0, trace = []\<rparr>)
       = \<lparr>calls = 1,
          trace = [ReplyCall (js ''caption'' @ [10] @ media_warning (ErrorObj (js ''404''))) True]\<rparr>"
    by (simp add: deliverWebReply_def short_caption_reply_def test_deps_def hard_split_def
        WEB_TEXT_LIMIT_def mediaList_def js_def media_404_def try_media_def Let_def fallbackText_def
        media_warning_def call_def)
  ultimately show ?thesis using long_chunks by (simp add: b long_caption_reply_def)
qed

text \<open>A delivery that completes has made an outbound call that resolved, unless there was nothing to send.\<close>

lemma call_ext:
  "call nw ev w = (r, w') \<Longrightarrow> \<exists>evs. trace w' = trace w @ evs \<and> (\<not> isl r \<longrightarrow> evs = [ev True])"
  by (auto simp: call_def split: option.splits)

lemma sendWithRetry_ext:
  "sendWithRetry nw ev n w = (r, w') \<Longrightarrow>
   \<exists>evs. trace w' = trace w @ evs \<and> (\<not> isl r \<longrightarrow> ev True \<in> set evs)"
proof (induction n arbitrary: w)
  case 0
  then show ?case by auto
next
  case (Suc n)
  obtain r1 w1 where c: "call nw ev w = (r1, w1)" by (cases "call nw ev w")
  from call_ext [OF c] obtain evs1 where
    e1: "trace w1 = trace w @ evs1" "\<not> isl r1 \<longrightarrow> evs1 = [ev True]" by blast
  show ?case
  proof (cases r1)
    case (Inr x)
    then show ?thesis using Suc.prems c e1 by auto
  next
    case (Inl e)
    show ?thesis
    proof (cases "\<not> shouldRetry nw e \<or> n = 0")
      case True
      then show ?thesis using Suc.prems c e1 Inl by auto
    next
      case False
      then have "sendWithRetry nw ev n w1 = (r, w')" using Suc.prems c Inl by simp
      from Suc.IH [OF this] obtain evs where
        "trace w' = trace w1 @ evs" "\<not> isl r \<longrightarrow> ev True \<in> set evs" by blast
      then show ?thesis using e1 by auto
    qed
  qed
qed

lemma send_chunks_retry_ext:
  "send_chunks_retry nw chunks w = (r, w') \<Longrightarrow>
   \<exists>evs. trace w' = trace w @ evs \<and> (\<not> isl r \<and> chunks \<noteq> [] \<longrightarrow> list_ex succeeded evs)"
proof (induction chunks arbitrary: w)
  case Nil
  then show ?case by auto
next
  case (Cons chunk rest)
  obtain r1 w1 where c: "sendWithRetry nw (ReplyCall chunk) 3 w = (r1, w1)"
    by (cases "sendWithRetry nw (ReplyCall chunk) 3 w")
  from sendWithRetry_ext [OF c] obtain evs1 where
    e1: "trace w1 = trace w @ evs1" "\<not> isl r1 \<longrightarrow> ReplyCall chunk True \<in> set evs1" by blast
  show ?case
  proof (cases r1)
    case (Inl e)
    then show ?thesis using Cons.prems c e1 by auto
  next
    case (Inr u)
    then have "send_chunks_retry nw rest w1 = (r, w')" using Cons.prems c by simp
    from Cons.IH [OF this] obtain evs where "trace w' = trace w1 @ evs" by blast
    moreover have "list_ex succeeded evs1" using e1(2) Inr by (force simp: list_ex_iff)
    ultimately show ?thesis using e1(1) by (auto simp: list_ex_iff)
  qed
qed

lemma send_chunks_plain_ext:
  "send_chunks_plain nw chunks w = (r, w') \<Longrightarrow> \<exists>evs. trace w' = trace w @ evs"
proof (induction chunks arbitrary: w)
  case Nil
  then show ?case by auto
next
  case (Cons chunk rest)
  obtain r1 w1 where c: "call nw (ReplyCall chunk) w = (r1, w1)"
    by (cases "call nw (ReplyCall chunk) w")
  from call_ext [OF c] obtain evs1 where e1: "trace w1 = trace w @ evs1" by blast
  show ?case
  proof (cases r1)
    case (Inl e)
    then show ?thesis using Cons.prems c e1 by auto
  next
    case (Inr u)
    then have "send_chunks_plain nw rest w1 = (r, w')" using Cons.prems c by simp
    from Cons.IH [OF this] show ?thesis using e1 by auto
  qed
qed

lemma try_media_ext:
  "try_media nw mb u c w = (r, w') \<Longrightarrow>
   \<exists>evs. trace w' = trace w @ evs \<and> (\<not> isl r \<longrightarrow> list_ex succeeded evs)"
proof (cases "loadWebMedia nw u mb")
  case (Inl e)
  assume "try_media nw mb u c w = (r, w')"
  then show ?thesis using Inl by (auto simp: try_media_def)
next
  case (Inr k)
  assume "try_media nw mb u c w = (r, w')"
  then have "sendWithRetry nw (MediaCall k c u) 3 w = (r, w')" using Inr by (simp add: try_media_def)
  from sendWithRetry_ext [OF this] show ?thesis by (force simp: list_ex_iff)
qed

lemma send_media_later_ext:
  "0 < index \<Longrightarrow> send_media nw mb index remaining urls w = (r, w') \<Longrightarrow>
   \<exists>evs. trace w' = trace w @ evs"
  using send_media_later_no_reply by blast

lemma send_media_first_ext:
  assumes "send_media nw mb 0 remaining (url # rest) w = (r, w')"
  shows "\<exists>evs. trace w' = trace w @ evs \<and> (\<not> isl r \<longrightarrow> list_ex succeeded evs)"
proof -
  let ?caption = "(case remaining of [] \<Rightarrow> None | c # _ \<Rightarrow> if c = [] then None else Some c)"
  obtain r1 w1 where t: "try_media nw mb url ?caption w = (r1, w1)"
    by (cases "try_media nw mb url ?caption w")
  from try_media_ext [OF t] obtain evs1 where
    e1: "trace w1 = trace w @ evs1" "\<not> isl r1 \<longrightarrow> list_ex succeeded evs1" by blast
  show ?thesis
  proof (cases r1)
    case (Inr u)
    then have "send_media nw mb (Suc 0) (tl remaining) rest w1 = (r, w')"
      using assms t by (simp add: Let_def)
    from send_media_later_ext [OF _ this] obtain evs where "trace w' = trace w1 @ evs" by auto
    then show ?thesis using e1 Inr by (auto simp: list_ex_iff)
  next
    case (Inl err)
    let ?first = "(case tl remaining of c # _ \<Rightarrow> c
                   | [] \<Rightarrow> (case ?caption of Some c \<Rightarrow> c | None \<Rightarrow> []))"
    let ?fb = "fallbackText ?first err"
    have fb: "?fb \<noteq> []"
      using media_warning_nonempty [of err]
      by (cases "?first = []") (simp_all add: fallbackText_def)
    obtain r2 w2 where c: "call nw (ReplyCall ?fb) w1 = (r2, w2)"
      by (cases "call nw (ReplyCall ?fb) w1")
    from call_ext [OF c] obtain evs2 where
      e2: "trace w2 = trace w1 @ evs2" "\<not> isl r2 \<longrightarrow> evs2 = [ReplyCall ?fb True]" by blast
    have step: "send_media nw mb 0 remaining (url # rest) w
                = (case r2 of Inl e \<Rightarrow> (Inl e, w2)
                   | Inr x \<Rightarrow> send_media nw mb (Suc 0) (tl (tl remaining)) rest w2)"
      using t Inl fb c by (cases r2) (simp_all add: Let_def)
    show ?thesis
    proof (cases r2)
      case (Inl e)
      then have "r = Inl e" "w' = w2" using assms step by simp_all
      then show ?thesis using e1 e2 by auto
    next
      case (Inr x)
      then have "send_media nw mb (Suc 0) (tl (tl remaining)) rest w2 = (r, w')"
        using assms step by simp
      from send_media_later_ext [OF _ this] obtain evs where "trace w' = trace w2 @ evs" by auto
      then show ?thesis using e1 e2 Inr by (auto simp: list_ex_iff)
    qed
  qed
qed

lemma deliverWebReply_sends:
  assumes "deliverWebReply d nw mb p w = (Inr u, w')"
  shows "(mediaList p = [] \<and> chunkText d (case ptext p of None \<Rightarrow> [] | Some t \<Rightarrow> t) WEB_TEXT_LIMIT = [])
       \<or> (\<exists>evs. trace w' = trace w @ evs \<and> list_ex succeeded evs)"
proof -
  let ?chunks = "chunkText d (case ptext p of None \<Rightarrow> [] | Some t \<Rightarrow> t) WEB_TEXT_LIMIT"
  show ?thesis
  proof (cases "mediaList p = []")
    case True
    show ?thesis
    proof (cases "?chunks = []")
      case True
      then show ?thesis using \<open>mediaList p = []\<close> by simp
    next
      case False
      then have "send_chunks_retry nw ?chunks w = (Inr u, w')"
        using assms True by (simp add: deliverWebReply_def Let_def)
      from send_chunks_retry_ext [OF this] show ?thesis using False by auto
    qed
  next
    case False
    obtain url rest where ml: "mediaList p = url # rest" using False by (cases "mediaList p") auto
    obtain r1 w1 where m: "send_media nw mb 0 ?chunks (mediaList p) w = (r1, w1)"
      by (cases "send_media nw mb 0 ?chunks (mediaList p) w")
    from send_media_first_ext [OF m [unfolded ml]] obtain evs1 where
      e1: "trace w1 = trace w @ evs1" "\<not> isl r1 \<longrightarrow> list_ex succeeded evs1"
      by auto
    show ?thesis
    proof (cases r1)
      case (Inl e)
      then show ?thesis using assms False m
        by (simp add: deliverWebReply_def Let_def del: send_media.simps)
    next
      case (Inr rem)
      then have "send_chunks_plain nw rem w1 = (Inr u, w')"
        using assms False m by (simp add: deliverWebReply_def Let_def del: send_media.simps)
      from send_chunks_plain_ext [OF this] obtain evs where "trace w' = trace w1 @ evs" by blast
      then show ?thesis using e1 Inr by (auto simp: list_ex_iff)
    qed
  qed
qed

text \<open>The first outbound call of a delivery with media, and a network on which every call resolves.\<close>

lemma sendWithRetry_first:
  "sendWithRetry nw ev (Suc n) w = (r, w') \<Longrightarrow> \<exists>ok evs. trace w' = trace w @ ev ok # evs"
proof -
  assume a: "sendWithRetry nw ev (Suc n) w = (r, w')"
  obtain r1 w1 where c: "call nw ev w = (r1, w1)" by (cases "call nw ev w")
  note t = call_trace [OF c]
  show ?thesis
  proof (cases r1)
    case (Inr x)
    then show ?thesis using a c t by auto
  next
    case (Inl e)
    show ?thesis
    proof (cases "\<not> shouldRetry nw e \<or> n = 0")
      case True
      then show ?thesis using a c t Inl by auto
    next
      case False
      then have "sendWithRetry nw ev n w1 = (r, w')" using a c Inl by simp
      from sendWithRetry_ext [OF this] obtain evs where "trace w' = trace w1 @ evs" by blast
      then show ?thesis using t by auto
    qed
  qed
qed

lemma fallbackText_indicator: "sublist (js ''Media failed'') (fallbackText first err)"
proof -
  have "sublist (js ''Media failed'') (media_warning err)" by (rule media_warning_indicator)
  then obtain ps ss where m: "media_warning err = ps @ js ''Media failed'' @ ss"
    unfolding sublist_def by blast
  show ?thesis
  proof (cases "first = []")
    case True
    then have "fallbackText first err = media_warning err"
      using media_warning_nonempty [of err] by (simp add: fallbackText_def)
    then show ?thesis using media_warning_indicator by simp
  next
    case False
    then have "fallbackText first err = (first @ [10] @ ps) @ js ''Media failed'' @ ss"
      using media_warning_nonempty [of err] m by (simp add: fallbackText_def)
    then show ?thesis by (simp only: sublist_appendI)
  qed
qed

lemma fallbackText_nonempty: "fallbackText first err \<noteq> []"
  using media_warning_nonempty [of err] by (cases "first = []") (simp_all add: fallbackText_def)

lemma send_media_any_ext:
  "send_media nw mb index remaining urls w = (r, w') \<Longrightarrow> \<exists>evs. trace w' = trace w @ evs"
proof (cases index)
  case 0
  assume a: "send_media nw mb index remaining urls w = (r, w')"
  show ?thesis
  proof (cases urls)
    case Nil
    then show ?thesis using a by auto
  next
    case (Cons u us)
    from send_media_first_ext [of nw mb remaining u us w r w'] a 0 Cons show ?thesis by blast
  qed
next
  case (Suc n)
  assume a: "send_media nw mb index remaining urls w = (r, w')"
  from send_media_later_ext [OF _ a] Suc show ?thesis by simp
qed

lemma send_media_first_event:
  assumes "send_media nw mb 0 remaining (url # rest) w = (r, w')"
  shows "\<exists>e evs. trace w' = trace w @ e # evs \<and> answers nw mb url e"
proof -
  let ?caption = "(case remaining of [] \<Rightarrow> None | c # _ \<Rightarrow> if c = [] then None else Some c)"
  obtain r1 w1 where t: "try_media nw mb url ?caption w = (r1, w1)"
    by (cases "try_media nw mb url ?caption w")
  show ?thesis
  proof (cases "loadWebMedia nw url mb")
    case (Inr k)
    then have s: "sendWithRetry nw (MediaCall k ?caption url) (Suc 2) w = (r1, w1)"
      using t by (simp add: try_media_def numeral_3_eq_3)
    from sendWithRetry_first [OF s] obtain ok evs1 where
      e1: "trace w1 = trace w @ MediaCall k ?caption url ok # evs1" by blast
    have "\<exists>evs. trace w' = trace w1 @ evs"
    proof (cases r1)
      case (Inr u)
      then have "send_media nw mb (Suc 0) (tl remaining) rest w1 = (r, w')"
        using assms t by (simp add: Let_def)
      then show ?thesis by (rule send_media_any_ext)
    next
      case (Inl err)
      let ?first = "(case tl remaining of c # _ \<Rightarrow> c
                     | [] \<Rightarrow> (case ?caption of Some c \<Rightarrow> c | None \<Rightarrow> []))"
      let ?fb = "fallbackText ?first err"
      obtain r2 w2 where c: "call nw (ReplyCall ?fb) w1 = (r2, w2)"
        by (cases "call nw (ReplyCall ?fb) w1")
      note t2 = call_trace [OF c]
      have step: "send_media nw mb 0 remaining (url # rest) w
                  = (case r2 of Inl e \<Rightarrow> (Inl e, w2)
                     | Inr x \<Rightarrow> send_media nw mb (Suc 0) (tl (tl remaining)) rest w2)"
        using t Inl fallbackText_nonempty [of ?first err] c by (cases r2) (simp_all add: Let_def)
      show ?thesis
      proof (cases r2)
        case (Inl e)
        then have "w' = w2" using assms step by simp
        then show ?thesis using t2 by auto
      next
        case (Inr x)
        then have "send_media nw mb (Suc 0) (tl (tl remaining)) rest w2 = (r, w')"
          using assms step by simp
        from send_media_any_ext [OF this] show ?thesis using t2 by auto
      qed
    qed
    then show ?thesis using e1 Inr by auto
  next
    case (Inl err)
    then have t': "r1 = Inl err" "w1 = w" using t by (simp_all add: try_media_def)
    let ?first = "(case tl remaining of c # _ \<Rightarrow> c
                   | [] \<Rightarrow> (case ?caption of Some c \<Rightarrow> c | None \<Rightarrow> []))"
    let ?fb = "fallbackText ?first err"
    obtain r2 w2 where c: "call nw (ReplyCall ?fb) w = (r2, w2)"
      by (cases "call nw (ReplyCall ?fb) w")
    note t2 = call_trace [OF c]
    have step: "send_media nw mb 0 remaining (url # rest) w
                = (case r2 of Inl e \<Rightarrow> (Inl e, w2)
                   | Inr x \<Rightarrow> send_media nw mb (Suc 0) (tl (tl remaining)) rest w2)"
      using t t' fallbackText_nonempty [of ?first err] c by (cases r2) (simp_all add: Let_def)
    have "\<exists>evs. trace w' = trace w2 @ evs"
    proof (cases r2)
      case (Inl e)
      then have "w' = w2" using assms step by simp
      then show ?thesis by simp
    next
      case (Inr x)
      then have "send_media nw mb (Suc 0) (tl (tl remaining)) rest w2 = (r, w')"
        using assms step by simp
      then show ?thesis by (rule send_media_any_ext)
    qed
    then show ?thesis using t2 Inl fallbackText_indicator [of ?first err] by auto
  qed
qed

lemma deliverWebReply_first_event:
  assumes "mediaList p = url # rest"
  shows "\<exists>e evs. trace (snd (deliverWebReply d nw mb p w)) = trace w @ e # evs \<and> answers nw mb url e"
proof -
  let ?chunks = "chunkText d (case ptext p of None \<Rightarrow> [] | Some t \<Rightarrow> t) WEB_TEXT_LIMIT"
  obtain r1 w1 where m: "send_media nw mb 0 ?chunks (url # rest) w = (r1, w1)"
    by (cases "send_media nw mb 0 ?chunks (url # rest) w")
  from send_media_first_event [OF m] obtain e evs1 where
    e1: "trace w1 = trace w @ e # evs1" "answers nw mb url e" by blast
  show ?thesis
  proof (cases r1)
    case (Inl err)
    then have "snd (deliverWebReply d nw mb p w) = w1"
      using assms m by (simp add: deliverWebReply_def Let_def del: send_media.simps)
    then show ?thesis using e1 by auto
  next
    case (Inr rem)
    obtain r2 w2 where c: "send_chunks_plain nw rem w1 = (r2, w2)"
      by (cases "send_chunks_plain nw rem w1")
    from send_chunks_plain_ext [OF c] obtain evs2 where "trace w2 = trace w1 @ evs2" by blast
    moreover have "snd (deliverWebReply d nw mb p w) = w2"
      using assms m Inr c by (simp add: deliverWebReply_def Let_def del: send_media.simps)
    ultimately show ?thesis using e1 by auto
  qed
qed

lemma call_resolves:
  "attempt nw (calls w) = None \<Longrightarrow>
   call nw ev w = (Inr (), \<lparr>calls = Suc (calls w), trace = trace w @ [ev True]\<rparr>)"
  by (simp add: call_def)

lemma sendWithRetry_resolves:
  "\<forall>k. attempt nw k = None \<Longrightarrow>
   sendWithRetry nw ev (Suc n) w = (Inr (), \<lparr>calls = Suc (calls w), trace = trace w @ [ev True]\<rparr>)"
  by (simp add: call_resolves)

lemma send_chunks_plain_resolves:
  "\<forall>k. attempt nw k = None \<Longrightarrow> fst (send_chunks_plain nw chunks w) = Inr ()"
  by (induction chunks arbitrary: w) (simp_all add: call_resolves)

lemma try_media_resolves:
  "\<forall>k. attempt nw k = None \<Longrightarrow>
   try_media nw mb u c w =
     (case loadWebMedia nw u mb of
        Inl e \<Rightarrow> (Inl e, w)
      | Inr k \<Rightarrow> (Inr (), \<lparr>calls = Suc (calls w), trace = trace w @ [MediaCall k c u True]\<rparr>))"
  by (simp add: try_media_def numeral_3_eq_3 call_resolves split: sum.splits)

lemma send_media_resolves:
  "\<forall>k. attempt nw k = None \<Longrightarrow> \<not> isl (fst (send_media nw mb index remaining urls w))"
proof (induction urls arbitrary: index remaining w)
  case Nil
  then show ?case by simp
next
  case (Cons url rest)
  show ?case
    using Cons.prems Cons.IH [OF Cons.prems]
    by (simp add: Let_def try_media_resolves call_resolves split: sum.splits)
qed

lemma deliverWebReply_media_resolves:
  assumes "\<forall>k. attempt nw k = None" and "mediaList p = url # rest"
    and "loadWebMedia nw url mb = Inr kind"
  shows "fst (deliverWebReply d nw mb p w) = Inr ()
       \<and> (\<exists>c evs. trace (snd (deliverWebReply d nw mb p w)) = trace w @ MediaCall kind c url True # evs)"
proof -
  let ?chunks = "chunkText d (case ptext p of None \<Rightarrow> [] | Some t \<Rightarrow> t) WEB_TEXT_LIMIT"
  let ?caption = "(case ?chunks of [] \<Rightarrow> None | c # _ \<Rightarrow> if c = [] then None else Some c)"
  let ?w1 = "\<lparr>calls = Suc (calls w), trace = trace w @ [MediaCall kind ?caption url True]\<rparr>"
  obtain r2 w2 where m2: "send_media nw mb (Suc 0) (tl ?chunks) rest ?w1 = (r2, w2)"
    by (cases "send_media nw mb (Suc 0) (tl ?chunks) rest ?w1")
  from send_media_any_ext [OF m2] obtain evs2 where e2: "trace w2 = trace ?w1 @ evs2" by blast
  have "\<not> isl r2" using send_media_resolves [OF assms(1), of mb "Suc 0" "tl ?chunks" rest ?w1] m2 by simp
  then obtain rem where r2: "r2 = Inr rem" by (cases r2) auto
  have m: "send_media nw mb 0 ?chunks (url # rest) w = (Inr rem, w2)"
    using assms(1,3) m2 r2 by (simp add: Let_def try_media_resolves del: send_media.simps(2))
       (simp add: Let_def try_media_resolves assms)
  obtain r3 w3 where c: "send_chunks_plain nw rem w2 = (r3, w3)" by (cases "send_chunks_plain nw rem w2")
  from send_chunks_plain_ext [OF c] obtain evs3 where e3: "trace w3 = trace w2 @ evs3" by blast
  have r3: "r3 = Inr ()" using send_chunks_plain_resolves [OF assms(1), of rem w2] c by simp
  have "deliverWebReply d nw mb p w = (Inr (), w3)"
    using assms(2) m c r3 by (simp add: deliverWebReply_def Let_def del: send_media.simps)
  then show ?thesis using e2 e3 by auto
qed

subsection \<open>Silent replies\<close>

lemma strip_and_prefix_media:
  "hasMedia p \<Longrightarrow> \<exists>q. strip_and_prefix d cfg p = Some q \<and> hasMedia q \<and> mediaList q = mediaList p"
  by (auto simp: strip_and_prefix_def Let_def hasMedia_def mediaList_def split: option.splits)

lemma deliver_finals_single:
  assumes "strip_and_prefix d cfg p = Some q"
  shows "net_out (snd (deliver_finals d cfg nw cb [p] did s))
           = snd (deliverWebReply d nw (mediaMaxBytes cfg) q (net_out s))
       \<and> delivered (snd (deliver_finals d cfg nw cb [p] did s))
           = delivered s @ [\<not> isl (fst (deliverWebReply d nw (mediaMaxBytes cfg) q (net_out s)))]"
proof -
  obtain r w where dl: "deliverWebReply d nw (mediaMaxBytes cfg) q (net_out s) = (r, w)"
    by (cases "deliverWebReply d nw (mediaMaxBytes cfg) q (net_out s)")
  show ?thesis using assms dl by (cases r) simp_all
qed

lemma processMessage_single:
  assumes "cb = combinedBody d cfg (groupHistories s) msg" and "cb \<notin> set (recentlySent s)"
    and "rv cb msg wm = \<lparr>tool_results = [], final = Some [p]\<rparr>"
    and "sendableReplies (SILENT_REPLY_TOKEN d) [p] = [p]"
    and "strip_and_prefix d cfg p = Some q"
  shows "net_out (snd (processMessage d cfg nw rv s msg wm))
           = snd (deliverWebReply d nw (mediaMaxBytes cfg) q (net_out s))"
proof -
  let ?s1 = "s\<lparr>resolver_bodies := resolver_bodies s @ [cb]\<rparr>"
  obtain did2 s3 where f: "deliver_finals d cfg nw cb [p] False ?s1 = (did2, s3)"
    by (cases "deliver_finals d cfg nw cb [p] False ?s1")
  have n: "net_out s3 = snd (deliverWebReply d nw (mediaMaxBytes cfg) q (net_out s))"
    using deliver_finals_single [OF assms(5), of nw cb False ?s1] f by simp
  have "snd (processMessage d cfg nw rv s msg wm)
        = (if chatType msg = Group \<and> did2 then clear_history (conversation msg) s3 else s3)"
    using assms(1-4) f
    by (simp add: processMessage_def echo_consume_def Let_def del: deliver_finals.simps)
  then show ?thesis using n by (simp add: clear_history_def)
qed

lemma token_media_chunks:
  "chunkText test_deps (js '' NO_REPLY '') WEB_TEXT_LIMIT = [js '' NO_REPLY '']"
  by (simp add: test_deps_def hard_split_def WEB_TEXT_LIMIT_def js_def)

lemma token_media_prepared:
  "strip_and_prefix test_deps test_config token_with_media = Some token_with_media"
  by (simp add: strip_and_prefix_def test_deps_def test_config_def token_with_media_def js_def
      sublist_code Let_def)

lemma token_media_delivery:
  "deliverWebReply test_deps quiet_net mb token_with_media \<lparr>calls = 0, trace = []\<rparr>
   = (Inr (), \<lparr>calls = 1,
               trace = [MediaCall Image (Some (js '' NO_REPLY '')) (js ''https://x/y.png'') True]\<rparr>)"
proof -
  have m: "mediaList token_with_media = [js ''https://x/y.png'']"
    by (simp add: mediaList_def token_with_media_def js_def)
  have t: "ptext token_with_media = Some (js '' NO_REPLY '')" by (simp add: token_with_media_def)
  have n: "js '' NO_REPLY '' \<noteq> []" by (simp add: js_def)
  show ?thesis
    by (simp add: deliverWebReply_def m t token_media_chunks n Let_def try_media_def quiet_net_def
        call_def numeral_3_eq_3)
qed

text \<open>
  C10. With a non-empty token, a payload is silent exactly when its trimmed text is the
  token and it carries no media. A payload with the token as text and a media URL or a
  non-empty list of media URLs is not silent: it stays among the sendable replies, keeps
  its media through the preparation, and is delivered. The loop over the sendable
  replies, and \<open>processMessage\<close> when the resolver returns this payload, make an
  outbound call for it: the first one is the media message for its first URL when that
  loads, and the text with the failure note when it does not. When the media loads and
  every outbound call resolves, the media message goes out and the delivery completes.
\<close>

theorem isSilentReply_iff:
  assumes "SILENT_REPLY_TOKEN d \<noteq> []"
  shows "(isSilentReply (SILENT_REPLY_TOKEN d) (Some p)
            \<longleftrightarrow> map_option trim (ptext p) = Some (SILENT_REPLY_TOKEN d) \<and> \<not> hasMedia p)
       \<and> \<not> isSilentReply (SILENT_REPLY_TOKEN d) None
       \<and> (hasMedia p \<longrightarrow>
            sendableReplies (SILENT_REPLY_TOKEN d) [p] = [p]
            \<and> (\<exists>q. strip_and_prefix d cfg p = Some q \<and> hasMedia q \<and> mediaList q = mediaList p)
            \<and> (\<exists>b. delivered (snd (deliver_finals d cfg nw cb
                                      (sendableReplies (SILENT_REPLY_TOKEN d) [p]) did s))
                     = delivered s @ [b])
            \<and> (\<exists>url rest e evs. mediaList p = url # rest
                  \<and> trace (net_out (snd (deliver_finals d cfg nw cb
                                          (sendableReplies (SILENT_REPLY_TOKEN d) [p]) did s)))
                      = trace (net_out s) @ e # evs
                  \<and> answers nw (mediaMaxBytes cfg) url e)
            \<and> ((\<forall>k. attempt nw k = None)
                 \<and> loadWebMedia nw (hd (mediaList p)) (mediaMaxBytes cfg) = Inr kind
               \<longrightarrow> delivered (snd (deliver_finals d cfg nw cb
                                      (sendableReplies (SILENT_REPLY_TOKEN d) [p]) did s))
                     = delivered s @ [True]
                   \<and> (\<exists>c evs. trace (net_out (snd (deliver_finals d cfg nw cb
                                          (sendableReplies (SILENT_REPLY_TOKEN d) [p]) did s)))
                        = trace (net_out s) @ MediaCall kind c (hd (mediaList p)) True # evs))
            \<and> (combinedBody d cfg (groupHistories s) msg \<notin> set (recentlySent s)
                 \<and> rv (combinedBody d cfg (groupHistories s) msg) msg wm
                     = \<lparr>tool_results = [], final = Some [p]\<rparr>
               \<longrightarrow> (\<exists>url rest e evs. mediaList p = url # rest
                      \<and> trace (net_out (snd (processMessage d cfg nw rv s msg wm)))
                          = trace (net_out s) @ e # evs
                      \<and> answers nw (mediaMaxBytes cfg) url e)))"
proof -
  let ?tok = "SILENT_REPLY_TOKEN d"
  have a: "isSilentReply ?tok (Some p)
            \<longleftrightarrow> map_option trim (ptext p) = Some ?tok \<and> \<not> hasMedia p"
    using assms by (auto simp: isSilentReply_def Let_def)
  have b: "\<not> isSilentReply ?tok None" by (simp add: isSilentReply_def)
  have c: "sendableReplies ?tok [p] = [p]
            \<and> (\<exists>q. strip_and_prefix d cfg p = Some q \<and> hasMedia q \<and> mediaList q = mediaList p)
            \<and> (\<exists>b. delivered (snd (deliver_finals d cfg nw cb (sendableReplies ?tok [p]) did s))
                     = delivered s @ [b])
            \<and> (\<exists>url rest e evs. mediaList p = url # rest
                  \<and> trace (net_out (snd (deliver_finals d cfg nw cb (sendableReplies ?tok [p]) did s)))
                      = trace (net_out s) @ e # evs
                  \<and> answers nw (mediaMaxBytes cfg) url e)
            \<and> ((\<forall>k. attempt nw k = None)
                 \<and> loadWebMedia nw (hd (mediaList p)) (mediaMaxBytes cfg) = Inr kind
               \<longrightarrow> delivered (snd (deliver_finals d cfg nw cb (sendableReplies ?tok [p]) did s))
                     = delivered s @ [True]
                   \<and> (\<exists>c evs. trace (net_out (snd (deliver_finals d cfg nw cb
                                          (sendableReplies ?tok [p]) did s)))
                        = trace (net_out s) @ MediaCall kind c (hd (mediaList p)) True # evs))
            \<and> (combinedBody d cfg (groupHistories s) msg \<notin> set (recentlySent s)
                 \<and> rv (combinedBody d cfg (groupHistories s) msg) msg wm
                     = \<lparr>tool_results = [], final = Some [p]\<rparr>
               \<longrightarrow> (\<exists>url rest e evs. mediaList p = url # rest
                      \<and> trace (net_out (snd (processMessage d cfg nw rv s msg wm)))
                          = trace (net_out s) @ e # evs
                      \<and> answers nw (mediaMaxBytes cfg) url e))"
    if m: "hasMedia p"
  proof -
    have s1: "sendableReplies ?tok [p] = [p]"
      using a m by (simp add: sendableReplies_def)
    from strip_and_prefix_media [OF m] obtain q where
      q: "strip_and_prefix d cfg p = Some q" "hasMedia q" "mediaList q = mediaList p" by blast
    obtain url rest where ml: "mediaList p = url # rest"
      using m by (cases "mediaList p") (auto simp: hasMedia_def mediaList_def split: option.splits list.splits)
    note single = deliver_finals_single [OF q(1), of nw cb did s]
    from deliverWebReply_first_event [of q url rest d nw "mediaMaxBytes cfg" "net_out s"] q(3) ml
    obtain e evs where
      ev: "trace (snd (deliverWebReply d nw (mediaMaxBytes cfg) q (net_out s))) = trace (net_out s) @ e # evs"
          "answers nw (mediaMaxBytes cfg) url e"
      by auto
    have c3: "\<exists>b. delivered (snd (deliver_finals d cfg nw cb (sendableReplies ?tok [p]) did s))
                     = delivered s @ [b]"
      using single s1 by simp
    have c4: "\<exists>url rest e evs. mediaList p = url # rest
                  \<and> trace (net_out (snd (deliver_finals d cfg nw cb (sendableReplies ?tok [p]) did s)))
                      = trace (net_out s) @ e # evs
                  \<and> answers nw (mediaMaxBytes cfg) url e"
      using single s1 ml ev by simp
    have c5: "(\<forall>k. attempt nw k = None)
                 \<and> loadWebMedia nw (hd (mediaList p)) (mediaMaxBytes cfg) = Inr kind
               \<longrightarrow> delivered (snd (deliver_finals d cfg nw cb (sendableReplies ?tok [p]) did s))
                     = delivered s @ [True]
                   \<and> (\<exists>c evs. trace (net_out (snd (deliver_finals d cfg nw cb
                                          (sendableReplies ?tok [p]) did s)))
                        = trace (net_out s) @ MediaCall kind c (hd (mediaList p)) True # evs)"
    proof
      assume h: "(\<forall>k. attempt nw k = None)
                 \<and> loadWebMedia nw (hd (mediaList p)) (mediaMaxBytes cfg) = Inr kind"
      then have l: "loadWebMedia nw url (mediaMaxBytes cfg) = Inr kind" using ml by simp
      have mq: "mediaList q = url # rest" using q(3) ml by simp
      from deliverWebReply_media_resolves [OF _ mq l, of d "net_out s"] h
      have "fst (deliverWebReply d nw (mediaMaxBytes cfg) q (net_out s)) = Inr ()"
        "\<exists>c evs. trace (snd (deliverWebReply d nw (mediaMaxBytes cfg) q (net_out s)))
                   = trace (net_out s) @ MediaCall kind c url True # evs"
        by simp_all
      then show "delivered (snd (deliver_finals d cfg nw cb (sendableReplies ?tok [p]) did s))
                     = delivered s @ [True]
                   \<and> (\<exists>c evs. trace (net_out (snd (deliver_finals d cfg nw cb
                                          (sendableReplies ?tok [p]) did s)))
                        = trace (net_out s) @ MediaCall kind c (hd (mediaList p)) True # evs)"
        using single s1 ml by simp
    qed
    have c6: "combinedBody d cfg (groupHistories s) msg \<notin> set (recentlySent s)
                 \<and> rv (combinedBody d cfg (groupHistories s) msg) msg wm
                     = \<lparr>tool_results = [], final = Some [p]\<rparr>
               \<longrightarrow> (\<exists>url rest e evs. mediaList p = url # rest
                      \<and> trace (net_out (snd (processMessage d cfg nw rv s msg wm)))
                          = trace (net_out s) @ e # evs
                      \<and> answers nw (mediaMaxBytes cfg) url e)"
    proof
      assume h: "combinedBody d cfg (groupHistories s) msg \<notin> set (recentlySent s)
                 \<and> rv (combinedBody d cfg (groupHistories s) msg) msg wm
                     = \<lparr>tool_results = [], final = Some [p]\<rparr>"
      have "net_out (snd (processMessage d cfg nw rv s msg wm))
           = snd (deliverWebReply d nw (mediaMaxBytes cfg) q (net_out s))"
        using processMessage_single [where cb = "combinedBody d cfg (groupHistories s) msg"
            and d = d and cfg = cfg and s = s and msg = msg and rv = rv and wm = wm and p = p
            and q = q and nw = nw, OF refl _ _ s1 q(1)] h
        by simp
      then show "\<exists>url rest e evs. mediaList p = url # rest
                      \<and> trace (net_out (snd (processMessage d cfg nw rv s msg wm)))
                          = trace (net_out s) @ e # evs
                      \<and> answers nw (mediaMaxBytes cfg) url e"
        using ml ev by simp
    qed
    from s1 q c3 c4 c5 c6 show ?thesis by blast
  qed
  from a b c show ?thesis by blast
qed

theorem isSilentReply_iff_witness:
  "\<not> isSilentReply (js ''NO_REPLY'') (Some token_with_media)
   \<and> isSilentReply (js ''NO_REPLY'') (Some (token_with_media\<lparr>mediaUrl := None, mediaUrls := Some []\<rparr>))
   \<and> sendableReplies (js ''NO_REPLY'') [token_with_media] = [token_with_media]
   \<and> net_out (snd (deliver_finals test_deps test_config quiet_net (js ''hi'')
                     (sendableReplies (js ''NO_REPLY'') [token_with_media]) False empty_state))
       = \<lparr>calls = 1,
          trace = [MediaCall Image (Some (js '' NO_REPLY '')) (js ''https://x/y.png'') True]\<rparr>
   \<and> delivered (snd (deliver_finals test_deps test_config quiet_net (js ''hi'')
                     (sendableReplies (js ''NO_REPLY'') [token_with_media]) False empty_state))
       = [True]"
proof -
  have t: "SILENT_REPLY_TOKEN test_deps = js ''NO_REPLY''" by (simp add: test_deps_def)
  have n: "SILENT_REPLY_TOKEN test_deps \<noteq> []" by (simp add: test_deps_def js_def)
  have m: "hasMedia token_with_media" "\<not> hasMedia (token_with_media\<lparr>mediaUrl := None, mediaUrls := Some []\<rparr>)"
    by (simp_all add: hasMedia_def token_with_media_def js_def)
  have tr: "map_option trim (ptext token_with_media) = Some (js ''NO_REPLY'')"
    by (simp add: token_with_media_def trim_def js_def js_space_def)
  have e: "net_out empty_state = \<lparr>calls = 0, trace = []\<rparr>" "delivered empty_state = []"
    by (simp_all add: empty_state_def)
  have q: "attempt quiet_net = (\<lambda>k. None)"
    "loadWebMedia quiet_net = (\<lambda>url maxBytes. Inr Image)" by (simp_all add: quiet_net_def)
  have s: "sendableReplies (js ''NO_REPLY'') [token_with_media] = [token_with_media]"
    using isSilentReply_iff [OF n, where p = token_with_media] by (simp add: t m)
  have dl: "net_out (snd (deliver_finals test_deps test_config quiet_net (js ''hi'')
                     [token_with_media] False empty_state))
       = \<lparr>calls = 1,
          trace = [MediaCall Image (Some (js '' NO_REPLY '')) (js ''https://x/y.png'') True]\<rparr>"
    using deliver_finals_single [OF token_media_prepared, of quiet_net "js ''hi''" False empty_state]
    by (simp add: e token_media_delivery del: deliver_finals.simps)
  show ?thesis
    using isSilentReply_iff [OF n, where p = token_with_media and cfg = test_config
        and nw = quiet_net and cb = "js ''hi''" and did = False and s = empty_state
        and kind = Image]
      isSilentReply_iff [OF n, where p = "token_with_media\<lparr>mediaUrl := None, mediaUrls := Some []\<rparr>"]
      dl
    by (simp add: t m tr e q s del: deliver_finals.simps)
qed

subsection \<open>The turn: resolver, deliveries and the history buffer\<close>

lemma deliver_tools_inv:
  "deliver_tools d cfg nw ps did s = (did', s') \<Longrightarrow>
   groupHistories s' = groupHistories s \<and> resolver_bodies s' = resolver_bodies s
   \<and> (\<exists>new. delivered s' = delivered s @ new \<and> did' = (did \<or> True \<in> set new))"
proof (induction ps arbitrary: did s)
  case Nil
  then show ?case by auto
next
  case (Cons p ps)
  show ?case
  proof (cases "accept_tool d cfg p")
    case None
    then show ?thesis using Cons by simp
  next
    case (Some tp)
    obtain r w where dl: "deliverWebReply d nw (mediaMaxBytes cfg) tp (net_out s) = (r, w)"
      by (cases "deliverWebReply d nw (mediaMaxBytes cfg) tp (net_out s)")
    show ?thesis
    proof (cases r)
      case (Inr u)
      let ?s1 = "s\<lparr>net_out := w, delivered := delivered s @ [True],
                    recentlySent := record_tool_sent (ptext tp) (recentlySent s)\<rparr>"
      have "deliver_tools d cfg nw ps True ?s1 = (did', s')"
        using Cons.prems Some dl Inr by simp
      from Cons.IH [OF this] show ?thesis by auto
    next
      case (Inl e)
      let ?s1 = "s\<lparr>net_out := w, delivered := delivered s @ [False]\<rparr>"
      have "deliver_tools d cfg nw ps did ?s1 = (did', s')"
        using Cons.prems Some dl Inl by simp
      from Cons.IH [OF this] show ?thesis by auto
    qed
  qed
qed

lemma deliver_finals_inv:
  "deliver_finals d cfg nw cb ps did s = (did', s') \<Longrightarrow>
   groupHistories s' = groupHistories s \<and> resolver_bodies s' = resolver_bodies s
   \<and> (\<exists>new. delivered s' = delivered s @ new \<and> did' = (did \<or> True \<in> set new))"
proof (induction ps arbitrary: did s)
  case Nil
  then show ?case by auto
next
  case (Cons p ps)
  show ?case
  proof (cases "strip_and_prefix d cfg p")
    case None
    then show ?thesis using Cons by simp
  next
    case (Some rp)
    obtain r w where dl: "deliverWebReply d nw (mediaMaxBytes cfg) rp (net_out s) = (r, w)"
      by (cases "deliverWebReply d nw (mediaMaxBytes cfg) rp (net_out s)")
    show ?thesis
    proof (cases r)
      case (Inr u)
      let ?s1 = "s\<lparr>net_out := w, delivered := delivered s @ [True],
                    recentlySent := record_reply_sent (ptext rp) cb (recentlySent s)\<rparr>"
      have "deliver_finals d cfg nw cb ps True ?s1 = (did', s')"
        using Cons.prems Some dl Inr by simp
      from Cons.IH [OF this] show ?thesis by auto
    next
      case (Inl e)
      let ?s1 = "s\<lparr>net_out := w, delivered := delivered s @ [False]\<rparr>"
      have "deliver_finals d cfg nw cb ps did ?s1 = (did', s')"
        using Cons.prems Some dl Inl by simp
      from Cons.IH [OF this] show ?thesis by auto
    qed
  qed
qed

text \<open>What \<open>processMessage\<close> does, case by case.\<close>

lemma processMessage_cases:
  assumes "processMessage d cfg nw rv s msg wm = (r, s')"
    and cb_def: "cb = combinedBody d cfg (groupHistories s) msg"
  shows "(cb \<in> set (recentlySent s) \<and> r = CombinedEcho
            \<and> groupHistories s' = groupHistories s \<and> resolver_bodies s' = resolver_bodies s
            \<and> delivered s' = delivered s)
       \<or> (cb \<notin> set (recentlySent s) \<and> resolver_bodies s' = resolver_bodies s @ [cb]
            \<and> (\<exists>new. delivered s' = delivered s @ new
                 \<and> (tool_results (rv cb msg wm) = []
                      \<and> (case final (rv cb msg wm) of None \<Rightarrow> True
                          | Some ps \<Rightarrow> sendableReplies (SILENT_REPLY_TOKEN d) ps = []) \<longrightarrow> new = [])
                 \<and> (case final (rv cb msg wm) of
                      None \<Rightarrow> r = Threw \<and> groupHistories s' = groupHistories s
                    | Some ps \<Rightarrow> r = Done
                        \<and> groupHistories s' =
                            (if chatType msg = Group \<and> True \<in> set new
                             then (groupHistories s)(conversation msg \<mapsto> [])
                             else groupHistories s))))"
proof (cases "cb \<in> set (recentlySent s)")
  case True
  then show ?thesis using assms(1)
    by (auto simp: processMessage_def cb_def Let_def echo_consume_def)
next
  case False
  let ?res = "rv cb msg wm"
  let ?s1 = "s\<lparr>resolver_bodies := resolver_bodies s @ [cb]\<rparr>"
  obtain did1 s2 where t: "deliver_tools d cfg nw (tool_results ?res) False ?s1 = (did1, s2)"
    by (cases "deliver_tools d cfg nw (tool_results ?res) False ?s1")
  from deliver_tools_inv [OF t] obtain new1 where
    i1: "groupHistories s2 = groupHistories s" "resolver_bodies s2 = resolver_bodies s @ [cb]"
        "delivered s2 = delivered s @ new1" "did1 = (True \<in> set new1)"
    by auto
  have n1: "tool_results ?res = [] \<Longrightarrow> new1 = []" using t i1(3) by auto
  show ?thesis
  proof (cases "final ?res")
    case None
    then have "r = Threw" "s' = s2"
      using assms(1) False t by (auto simp: processMessage_def cb_def Let_def echo_consume_def)
    then show ?thesis using False None i1 n1 by auto
  next
    case (Some ps)
    let ?sendable = "sendableReplies (SILENT_REPLY_TOKEN d) ps"
    obtain did2 s3 where f: "deliver_finals d cfg nw cb ?sendable did1 s2 = (did2, s3)"
      by (cases "deliver_finals d cfg nw cb ?sendable did1 s2")
    from deliver_finals_inv [OF f] obtain new2 where
      i2: "groupHistories s3 = groupHistories s2" "resolver_bodies s3 = resolver_bodies s2"
          "delivered s3 = delivered s2 @ new2" "did2 = (did1 \<or> True \<in> set new2)"
      by auto
    have n2: "?sendable = [] \<Longrightarrow> new2 = [] \<and> s3 = s2 \<and> did2 = did1" using f i2(3) by auto
    have r: "r = Done"
      and s': "s' = (if chatType msg = Group \<and> did2 then clear_history (conversation msg) s3 else s3)"
      using assms(1) False t Some f n2
      by (auto simp: processMessage_def cb_def Let_def echo_consume_def split: if_splits)
    have "delivered s' = delivered s @ (new1 @ new2)"
      using s' i1 i2 by (simp add: clear_history_def)
    moreover have "resolver_bodies s' = resolver_bodies s @ [cb]"
      using s' i1 i2 by (simp add: clear_history_def)
    moreover have "groupHistories s' =
                     (if chatType msg = Group \<and> True \<in> set (new1 @ new2)
                      then (groupHistories s)(conversation msg \<mapsto> [])
                      else groupHistories s)"
      using s' i1 i2 by (auto simp: clear_history_def)
    moreover have "tool_results ?res = [] \<and> ?sendable = [] \<longrightarrow> new1 @ new2 = []"
      using n1 n2 by simp
    ultimately show ?thesis using False Some r by auto
  qed
qed

text \<open>
  After \<open>processMessage\<close> the histories are those before it, except that the
  conversation's buffer is empty when the message is a group message, the resolver
  returned, and at least one call of \<open>deliverWebReply\<close> of this turn completed. So the
  buffer is unchanged when the resolver rejects, when it returns nothing or only silent
  replies (and streamed no tool result), and when every delivery of the turn fails. A
  delivery that completes has made an outbound call unless the payload has no media and
  its text gives no chunk.
\<close>

lemma history_after_turn:
  assumes "processMessage d cfg nw rv s msg wm = (r, s')"
    and "cb = combinedBody d cfg (groupHistories s) msg"
  shows "groupHistories s' =
           (if chatType msg = Group \<and> r = Done
               \<and> True \<in> set (drop (length (delivered s)) (delivered s'))
            then (groupHistories s)(conversation msg \<mapsto> [])
            else groupHistories s)
       \<and> (final (rv cb msg wm) = None \<longrightarrow> groupHistories s' = groupHistories s)
       \<and> (tool_results (rv cb msg wm) = []
          \<and> (\<exists>ps. final (rv cb msg wm) = Some ps
                 \<and> (\<forall>p \<in> set ps. isSilentReply (SILENT_REPLY_TOKEN d) (Some p)))
          \<longrightarrow> groupHistories s' = groupHistories s \<and> delivered s' = delivered s)
       \<and> (True \<notin> set (drop (length (delivered s)) (delivered s'))
          \<longrightarrow> groupHistories s' = groupHistories s)
       \<and> (\<forall>p w u w'. deliverWebReply d nw (mediaMaxBytes cfg) p w = (Inr u, w')
            \<longrightarrow> (mediaList p = []
                 \<and> chunkText d (case ptext p of None \<Rightarrow> [] | Some t \<Rightarrow> t) WEB_TEXT_LIMIT = [])
                \<or> (\<exists>evs. trace w' = trace w @ evs \<and> list_ex succeeded evs))"
proof -
  have sends: "\<forall>p w u w'. deliverWebReply d nw (mediaMaxBytes cfg) p w = (Inr u, w')
            \<longrightarrow> (mediaList p = []
                 \<and> chunkText d (case ptext p of None \<Rightarrow> [] | Some t \<Rightarrow> t) WEB_TEXT_LIMIT = [])
                \<or> (\<exists>evs. trace w' = trace w @ evs \<and> list_ex succeeded evs)"
    using deliverWebReply_sends by blast
  have silent: "\<And>ps. (\<forall>p \<in> set ps. isSilentReply (SILENT_REPLY_TOKEN d) (Some p))
                 \<Longrightarrow> sendableReplies (SILENT_REPLY_TOKEN d) ps = []"
    by (simp add: sendableReplies_def filter_empty_conv)
  from processMessage_cases [OF assms]
  show ?thesis
  proof (elim disjE conjE exE)
    assume "cb \<in> set (recentlySent s)" "r = CombinedEcho" "groupHistories s' = groupHistories s"
      "delivered s' = delivered s"
    then show ?thesis using sends by simp
  next
    fix new
    assume n: "delivered s' = delivered s @ new"
      and e: "tool_results (rv cb msg wm) = []
              \<and> (case final (rv cb msg wm) of None \<Rightarrow> True
                  | Some ps \<Rightarrow> sendableReplies (SILENT_REPLY_TOKEN d) ps = []) \<longrightarrow> new = []"
      and f: "case final (rv cb msg wm) of
                None \<Rightarrow> r = Threw \<and> groupHistories s' = groupHistories s
              | Some ps \<Rightarrow> r = Done
                  \<and> groupHistories s' =
                      (if chatType msg = Group \<and> True \<in> set new
                       then (groupHistories s)(conversation msg \<mapsto> [])
                       else groupHistories s)"
    have d: "drop (length (delivered s)) (delivered s') = new" using n by simp
    show ?thesis
    proof (cases "final (rv cb msg wm)")
      case None
      then show ?thesis using f sends by simp
    next
      case (Some ps)
      have "groupHistories s' =
           (if chatType msg = Group \<and> r = Done
               \<and> True \<in> set (drop (length (delivered s)) (delivered s'))
            then (groupHistories s)(conversation msg \<mapsto> [])
            else groupHistories s)
       \<and> (final (rv cb msg wm) = None \<longrightarrow> groupHistories s' = groupHistories s)
       \<and> (tool_results (rv cb msg wm) = []
          \<and> (\<exists>ps. final (rv cb msg wm) = Some ps
                 \<and> (\<forall>p \<in> set ps. isSilentReply (SILENT_REPLY_TOKEN d) (Some p)))
          \<longrightarrow> groupHistories s' = groupHistories s \<and> delivered s' = delivered s)
       \<and> (True \<notin> set (drop (length (delivered s)) (delivered s'))
          \<longrightarrow> groupHistories s' = groupHistories s)"
        using Some f e d n silent [of ps] by auto
      then show ?thesis using sends by blast
    qed
  qed
qed

lemma empty_payload_delivery:
  "deliverWebReply test_deps nw mb empty_payload w = (Inr (), w)"
  by (simp add: deliverWebReply_def empty_payload_def mediaList_def test_deps_def hard_split_def
      WEB_TEXT_LIMIT_def Let_def)

text \<open>
  C6. The evaluation of the code at the failing input: two messages are buffered for a
  group, and the resolver returns one final payload with neither text nor media. The
  payload is not a silent reply, so it is among the sendable replies;
  \<open>deliverWebReply\<close> returns without any outbound call; \<open>didSendReply\<close> is set and the
  buffer is emptied, although nothing was sent. The same payload streamed as a tool
  result is dropped by the guard of \<open>sendToolResult\<close>, and the buffer is kept.
\<close>

theorem history_cleared_without_send:
  "groupHistories two_buffered (js ''123@g.us'')
     = Some [\<lparr>sender = js ''Bob'', body = js ''earlier'', timestamp = None\<rparr>,
             \<lparr>sender = js ''Alice'', body = js ''@owner ping'', timestamp = None\<rparr>]
   \<and> net_out two_buffered = \<lparr>calls = 0, trace = []\<rparr>
   \<and> fst (processMessage test_deps test_config quiet_net empty_reply_resolver two_buffered
            group_msg (Some False)) = Done
   \<and> net_out (snd (processMessage test_deps test_config quiet_net empty_reply_resolver two_buffered
                     group_msg (Some False))) = \<lparr>calls = 0, trace = []\<rparr>
   \<and> delivered (snd (processMessage test_deps test_config quiet_net empty_reply_resolver two_buffered
                       group_msg (Some False))) = [True]
   \<and> groupHistories (snd (processMessage test_deps test_config quiet_net empty_reply_resolver
                             two_buffered group_msg (Some False))) (js ''123@g.us'') = Some []
   \<and> groupHistories (snd (processMessage test_deps test_config quiet_net empty_tool_resolver
                             two_buffered group_msg (Some False)))
       = groupHistories two_buffered
   \<and> delivered (snd (processMessage test_deps test_config quiet_net empty_tool_resolver two_buffered
                       group_msg (Some False))) = []"
proof -
  have p: "strip_and_prefix test_deps test_config empty_payload = Some empty_payload"
    by (simp add: strip_and_prefix_def test_config_def empty_payload_def Let_def)
  have s: "\<not> isSilentReply (SILENT_REPLY_TOKEN test_deps) (Some empty_payload)"
    by (simp add: isSilentReply_def empty_payload_def)
  have a: "accept_tool test_deps test_config empty_payload = None"
    by (simp add: accept_tool_def empty_payload_def hasMedia_def)
  have c: "conversation group_msg = js ''123@g.us''" "chatType group_msg = Group"
    by (simp_all add: conversation_def group_msg_def)
  have r: "record_reply_sent (ptext empty_payload) cb rs = rs" for cb rs
    by (simp add: record_reply_sent_def empty_payload_def)
  have e: "recentlySent two_buffered = []" "net_out two_buffered = \<lparr>calls = 0, trace = []\<rparr>"
    "delivered two_buffered = []"
    by (simp_all add: two_buffered_def empty_state_def)
  have h: "groupHistories two_buffered (js ''123@g.us'')
     = Some [\<lparr>sender = js ''Bob'', body = js ''earlier'', timestamp = None\<rparr>,
             \<lparr>sender = js ''Alice'', body = js ''@owner ping'', timestamp = None\<rparr>]"
    by (simp add: two_buffered_def)
  have final: "processMessage test_deps test_config quiet_net empty_reply_resolver two_buffered
            group_msg (Some False)
        = (Done, clear_history (js ''123@g.us'')
             (two_buffered\<lparr>resolver_bodies := resolver_bodies two_buffered
                               @ [combinedBody test_deps test_config (groupHistories two_buffered) group_msg],
                           delivered := [True]\<rparr>))"
    by (simp add: processMessage_def echo_consume_def e empty_reply_resolver_def sendableReplies_def
        s p empty_payload_delivery r c Let_def)
  have tool: "processMessage test_deps test_config quiet_net empty_tool_resolver two_buffered
            group_msg (Some False)
        = (Done, two_buffered\<lparr>resolver_bodies := resolver_bodies two_buffered
                               @ [combinedBody test_deps test_config (groupHistories two_buffered) group_msg]\<rparr>)"
    by (simp add: processMessage_def echo_consume_def e empty_tool_resolver_def sendableReplies_def
        a c Let_def)
  show ?thesis
    unfolding final tool using h e by (simp add: clear_history_def)
qed

subsection \<open>Mention gating\<close>

lemma trim_history_drop':
  "0 \<le> limit \<Longrightarrow> history_push limit h e = Some (drop (Suc (length h) - nat limit) (h @ [e]))"
  by (simp add: history_push_def trim_history_drop)

lemma onMessage_stored:
  assumes "chatType msg = Group" and "m_body msg \<notin> set (recentlySent s)"
    and "0 \<le> groupHistoryLimit (historyLimit cfg)"
    and "\<not> parseActivationCommand d (stripMentionsForCommand cfg (m_body msg) (selfE164 msg))"
    and "\<not> (isOwnerSender d cfg msg
             \<and> isStatusCommand d (stripMentionsForCommand cfg (m_body msg) (selfE164 msg)))"
    and "resolveGroupActivationFor d cfg (conversation msg) = Mention"
    and "\<not> isBotMentioned d cfg msg"
    and "h = (case groupHistories s (conversation msg) of Some x \<Rightarrow> x | None \<Rightarrow> [])"
  shows "onMessage d cfg nw rv s msg =
           Some (StoredForContext,
                 s\<lparr>groupHistories := (groupHistories s)
                     (conversation msg \<mapsto>
                        drop (Suc (length h) - nat (groupHistoryLimit (historyLimit cfg)))
                          (h @ [new_entry msg]))\<rparr>)"
  using assms
  by (auto simp: onMessage_def echo_consume_def Let_def trim_history_drop')



lemma hello_facts:
  "stripMentionsForCommand test_config (js ''hello group'') (Some (js ''+999'')) = js ''hello group''"
  "stripMentionsForCommand test_config (js ''/status'') (Some (js ''+999'')) = js ''/status''"
  "stripMentionsForCommand test_config (js ''@owner ping'') (Some (js ''+999'')) = js ''@owner ping''"
  by (simp_all add: stripMentionsForCommand_def test_config_def js_def digit_def Let_def trim_def js_space_def)

lemma test_activation:
  "resolveGroupActivationFor test_deps test_config c = Mention"
  "resolveGroupActivationFor test_deps always_config c = Always"
  by (simp_all add: resolveGroupActivationFor_def resolveGroupRequireMentionFor_def test_config_def
      always_config_def test_deps_def js_def Let_def)

lemma test_limit: "groupHistoryLimit (historyLimit test_config) = 50"
  "groupHistoryLimit (historyLimit always_config) = 50"
  by (simp_all add: groupHistoryLimit_def test_config_def always_config_def DEFAULT_GROUP_HISTORY_LIMIT_def)

lemma hello_not_mentioned:
  "\<not> isBotMentioned test_deps test_config hello_msg"
  "\<not> isBotMentioned test_deps test_config owner_status_msg"
  by (simp_all add: isBotMentioned_def own_number_in_body_def clean_def invisible_def digit_def
      hello_msg_def owner_status_msg_def group_msg_def test_config_def test_deps_def js_def
      js_space_def Let_def sublist_code)

lemma hello_not_owner:
  "\<not> isOwnerSender test_deps test_config hello_msg"
  "\<not> isOwnerSender test_deps always_config hello_msg"
  "isOwnerSender test_deps test_config owner_status_msg"
  by (simp_all add: isOwnerSender_def resolveOwnerList_def hello_msg_def owner_status_msg_def
      group_msg_def test_config_def always_config_def test_deps_def js_def Let_def)

lemma hello_no_command:
  "\<not> parseActivationCommand test_deps (js ''hello group'')"
  "\<not> parseActivationCommand test_deps (js ''/status'')"
  "\<not> parseActivationCommand test_deps (js ''@owner ping'')"
  "\<not> isStatusCommand test_deps (js ''hello group'')"
  "\<not> isStatusCommand test_deps (js ''@owner ping'')"
  "isStatusCommand test_deps (js ''/status'')"
  by (simp_all add: isStatusCommand_def test_deps_def js_def trim_def js_space_def Let_def)









subsection \<open>Echo suppression in the handler\<close>

lemma hello_stored:
  "onMessage test_deps test_config quiet_net no_reply_resolver empty_state hello_msg
     = Some (StoredForContext,
             empty_state\<lparr>groupHistories := (groupHistories empty_state)
                (conversation hello_msg \<mapsto> [new_entry hello_msg])\<rparr>)"
  using onMessage_stored [of hello_msg empty_state test_config test_deps "[]" quiet_net no_reply_resolver]
    hello_facts(1) hello_no_command(1) hello_not_owner(1) hello_not_mentioned(1)
    test_activation(1) test_limit(1)
  by (simp add: hello_msg_def group_msg_def empty_state_def conversation_def)

text \<open>
  C8. The echo test is one-shot: it answers true exactly when the body is in the set,
  a hit removes the body, and a second test of the same body right after answers false.
  In the handler: a message whose body is in the set is skipped and the body is taken
  out of the set; a message whose body is not in the set is never skipped as an echo.
\<close>

theorem echo_consume_one_shot:
  "fst (echo_consume b rs) = (b \<in> set rs)
   \<and> b \<notin> set (snd (echo_consume b rs))
   \<and> fst (echo_consume b (snd (echo_consume b rs))) = False
   \<and> (m_body msg \<in> set (recentlySent s)
        \<longrightarrow> onMessage d cfg nw rv s msg
            = Some (EchoSkipped, s\<lparr>recentlySent := snd (echo_consume (m_body msg) (recentlySent s))\<rparr>))
   \<and> (m_body msg \<notin> set (recentlySent s)
        \<longrightarrow> (\<forall>s'. onMessage d cfg nw rv s msg \<noteq> Some (EchoSkipped, s')))"
proof -
  have a: "fst (echo_consume b rs) = (b \<in> set rs)
   \<and> b \<notin> set (snd (echo_consume b rs))
   \<and> fst (echo_consume b (snd (echo_consume b rs))) = False"
    by (simp add: echo_consume_def set_delete_def)
  have b: "m_body msg \<in> set (recentlySent s)
        \<longrightarrow> onMessage d cfg nw rv s msg
            = Some (EchoSkipped, s\<lparr>recentlySent := snd (echo_consume (m_body msg) (recentlySent s))\<rparr>)"
    by (simp add: onMessage_def echo_consume_def)
  have c: "m_body msg \<notin> set (recentlySent s)
        \<longrightarrow> (\<forall>s'. onMessage d cfg nw rv s msg \<noteq> Some (EchoSkipped, s'))"
    by (auto simp: onMessage_def echo_consume_def Let_def apfst_def map_prod_def
             split: if_splits option.splits prod.splits)
  from a b c show ?thesis by blast
qed

theorem echo_consume_one_shot_witness:
  "onMessage test_deps test_config quiet_net no_reply_resolver
       (empty_state\<lparr>recentlySent := [js ''ok'', js ''hello group'']\<rparr>) hello_msg
     = Some (EchoSkipped, empty_state\<lparr>recentlySent := [js ''ok'']\<rparr>)
   \<and> onMessage test_deps test_config quiet_net no_reply_resolver empty_state hello_msg
     = Some (StoredForContext,
             empty_state\<lparr>groupHistories := (groupHistories empty_state)
                (conversation hello_msg \<mapsto> [new_entry hello_msg])\<rparr>)"
  using echo_consume_one_shot [where msg = hello_msg and d = test_deps and cfg = test_config
      and nw = quiet_net and rv = no_reply_resolver
      and s = "empty_state\<lparr>recentlySent := [js ''ok'', js ''hello group'']\<rparr>"]
    echo_consume_one_shot [where msg = hello_msg and d = test_deps and cfg = test_config
      and nw = quiet_net and rv = no_reply_resolver and s = empty_state]
    hello_stored
  by (simp add: hello_msg_def group_msg_def empty_state_def echo_consume_def set_delete_def js_def)

subsection \<open>The history cap\<close>

lemma processMessage_histories:
  assumes "processMessage d cfg nw rv s msg wm = (r, s')"
  shows "groupHistories s' = groupHistories s
       \<or> groupHistories s' = (groupHistories s)(conversation msg \<mapsto> [])"
  using processMessage_cases [OF assms refl] by (auto split: option.splits if_splits)

lemma onMessage_history_cap:
  assumes "onMessage d cfg nw rv s msg = Some (e, s')"
    and "0 \<le> groupHistoryLimit (historyLimit cfg)"
    and "\<forall>c h. groupHistories s c = Some h \<longrightarrow> int (length h) \<le> groupHistoryLimit (historyLimit cfg)"
  shows "\<forall>c h. groupHistories s' c = Some h \<longrightarrow> int (length h) \<le> groupHistoryLimit (historyLimit cfg)"
proof -
  let ?L = "groupHistoryLimit (historyLimit cfg)"
  let ?ok = "\<lambda>g. \<forall>c h. g c = Some h \<longrightarrow> int (length h) \<le> ?L"
  let ?h = "(case groupHistories s (conversation msg) of Some h \<Rightarrow> h | None \<Rightarrow> [])"
  let ?pushed = "(groupHistories s)(conversation msg \<mapsto>
                    drop (Suc (length ?h) - nat ?L) (?h @ [new_entry msg]))"
  have pushed_ok: "?ok ?pushed" using assms(2,3) by auto
  have cleared: "\<And>g. ?ok g \<Longrightarrow> ?ok (g(conversation msg \<mapsto> []))" using assms(2) by auto
  have proc: "\<And>s1 wm r s2. ?ok (groupHistories s1) \<Longrightarrow> processMessage d cfg nw rv s1 msg wm = (r, s2)
                 \<Longrightarrow> ?ok (groupHistories s2)"
  proof -
    fix s1 wm r s2
    assume ok: "?ok (groupHistories s1)" and p: "processMessage d cfg nw rv s1 msg wm = (r, s2)"
    from processMessage_histories [OF p] show "?ok (groupHistories s2)"
    proof
      assume "groupHistories s2 = groupHistories s1"
      then show ?thesis using ok by simp
    next
      assume "groupHistories s2 = (groupHistories s1)(conversation msg \<mapsto> [])"
      then show ?thesis using cleared [OF ok] by simp
    qed
  qed
  show ?thesis
  proof (cases "m_body msg \<in> set (recentlySent s)")
    case True
    then show ?thesis using assms(1,3) by (auto simp: onMessage_def echo_consume_def)
  next
    case False
    show ?thesis
    proof (cases "chatType msg = Group")
      case notgroup: False
      obtain r s2 where p: "processMessage d cfg nw rv s msg None = (r, s2)"
        by (cases "processMessage d cfg nw rv s msg None")
      have "s' = s2" using assms(1) False notgroup p by (simp add: onMessage_def echo_consume_def)
      then show ?thesis using proc [OF assms(3) p] by simp
    next
      case True
      let ?cmd = "stripMentionsForCommand cfg (m_body msg) (selfE164 msg)"
      let ?bypass = "isOwnerSender d cfg msg \<and> (parseActivationCommand d ?cmd \<or> isStatusCommand d ?cmd)"
      let ?s1 = "s\<lparr>groupHistories := (if ?bypass then groupHistories s else ?pushed)\<rparr>"
      have ok1: "?ok (groupHistories ?s1)" using pushed_ok assms(3) by simp
      obtain r s2 where p: "processMessage d cfg nw rv ?s1 msg (Some (isBotMentioned d cfg msg)) = (r, s2)"
        by (cases "processMessage d cfg nw rv ?s1 msg (Some (isBotMentioned d cfg msg))")
      have "s' = s \<or> s' = ?s1 \<or> s' = s2"
        using assms(1,2) False True p
        by (auto simp: onMessage_def echo_consume_def Let_def trim_history_drop' split: if_splits)
      then show ?thesis using assms(3) ok1 proc [OF ok1 p] by auto
    qed
  qed
qed

text \<open>
  C7. For every non-negative cap and every burst of messages appended to a conversation's
  history, the append returns, the buffer holds at most cap entries, and the survivors
  are the last cap entries of everything appended, in order: with cap + k entries put
  into an empty buffer, the first k are gone. The cap is the configured one, or 50. The
  handler keeps every conversation's buffer within the cap: it only appends with this
  eviction or empties a buffer.
\<close>

theorem group_history_bounded_fifo:
  assumes "0 \<le> limit" and "es \<noteq> []"
  shows "(\<exists>h'. history_push_all limit h es = Some h'
            \<and> int (length h') \<le> limit
            \<and> h' = drop (length (h @ es) - nat limit) (h @ es))
       \<and> (length es = nat limit + k \<longrightarrow> history_push_all limit [] es = Some (drop k es))
       \<and> groupHistoryLimit None = 50 \<and> groupHistoryLimit (Some limit) = limit
       \<and> (groupHistoryLimit (historyLimit cfg) = limit
            \<and> onMessage d cfg nw rv s msg = Some (e, s')
            \<and> (\<forall>c x. groupHistories s c = Some x \<longrightarrow> int (length x) \<le> limit)
          \<longrightarrow> (\<forall>c x. groupHistories s' c = Some x \<longrightarrow> int (length x) \<le> limit))"
proof -
  have a: "history_push_all limit h es = Some (drop (length (h @ es) - nat limit) (h @ es))"
    using history_push_all_drop [OF assms] .
  have b: "int (length (drop (length (h @ es) - nat limit) (h @ es))) \<le> limit"
    using assms(1) by simp
  have c: "length es = nat limit + k \<longrightarrow> history_push_all limit [] es = Some (drop k es)"
    using history_push_all_drop [OF assms, of "[]"] by simp
  have d: "groupHistoryLimit None = 50 \<and> groupHistoryLimit (Some limit) = limit"
    by (simp add: groupHistoryLimit_def DEFAULT_GROUP_HISTORY_LIMIT_def)
  have e: "groupHistoryLimit (historyLimit cfg) = limit
            \<and> onMessage d cfg nw rv s msg = Some (e, s')
            \<and> (\<forall>c x. groupHistories s c = Some x \<longrightarrow> int (length x) \<le> limit)
          \<longrightarrow> (\<forall>c x. groupHistories s' c = Some x \<longrightarrow> int (length x) \<le> limit)"
    using onMessage_history_cap [of d cfg nw rv s msg e s'] assms(1) by blast
  from a b c d e show ?thesis by blast
qed

theorem group_history_bounded_fifo_witness:
  "history_push_all 3 [] [1, 2, 3, 4, 5 :: nat] = Some [3, 4, 5]
   \<and> onMessage test_deps test_config quiet_net no_reply_resolver empty_state hello_msg
       = Some (StoredForContext,
               empty_state\<lparr>groupHistories := (groupHistories empty_state)
                  (conversation hello_msg \<mapsto> [new_entry hello_msg])\<rparr>)
   \<and> int (length [new_entry hello_msg]) \<le> 50"
proof -
  let ?s' = "empty_state\<lparr>groupHistories := (groupHistories empty_state)
                  (conversation hello_msg \<mapsto> [new_entry hello_msg])\<rparr>"
  have st: "onMessage test_deps test_config quiet_net no_reply_resolver empty_state hello_msg
          = Some (StoredForContext, ?s')"
    by (rule hello_stored)
  have e: "\<forall>c x. groupHistories empty_state c = Some x \<longrightarrow> int (length x) \<le> 50"
    by (simp add: empty_state_def)
  have "\<forall>c x. groupHistories ?s' c = Some x \<longrightarrow> int (length x) \<le> 50"
    using group_history_bounded_fifo [where limit = 50 and es = "[0 :: nat]" and cfg = test_config
        and d = test_deps and nw = quiet_net and rv = no_reply_resolver and s = empty_state
        and msg = hello_msg and e = StoredForContext and s' = ?s'] st e test_limit(1)
    by simp
  then have "int (length [new_entry hello_msg]) \<le> 50" by simp
  then show ?thesis
    using group_history_bounded_fifo [where limit = 3 and es = "[1, 2, 3, 4, 5 :: nat]" and k = 2
        and h = "[]"] st
    by simp
qed

end
